theory Spec2Isabelle
  imports Complex_Main "HOL-Library.AList" "HOL-Library.Multiset"
begin

section \<open>Data model (src/types.ts)\<close>

text \<open>
  The interfaces of \<^verbatim>\<open>types.ts\<close> as records. Field names carry a prefix naming their
  record, because the interfaces share the names \<^verbatim>\<open>id\<close>, \<^verbatim>\<open>title\<close>, \<^verbatim>\<open>tasks\<close>, ...;
  an optional field (\<^verbatim>\<open>description?: string\<close>) is an \<open>option\<close>, \<open>None\<close> when the key is
  missing or \<^verbatim>\<open>undefined\<close>.
\<close>

datatype Status = Backlog | InProgress | Done

datatype Priority = P1 | P2 | P3

datatype Energy = High | Low

datatype ResourceType = Link | Note

record Resource =
  r_id :: string
  r_title :: string
  r_content :: string
  r_type :: ResourceType
  r_url :: "string option"
  r_createdAt :: string

record Attachment =
  att_id :: string
  att_name :: string
  att_url :: string
  att_type :: string
  att_size :: int
  att_createdAt :: string

record Task =
  t_id :: string
  t_title :: string
  t_description :: "string option"
  t_status :: Status
  t_priority :: Priority
  t_contextTags :: "string list"
  t_energy :: Energy
  t_deadline :: "string option"
  t_labels :: "string list"
  t_attachments :: "Attachment list option"
  t_createdAt :: string

record Phase =
  ph_id :: string
  ph_title :: string
  ph_description :: "string option"
  ph_status :: Status
  ph_startDate :: "string option"
  ph_endDate :: "string option"
  ph_tasks :: "Task list"
  ph_labels :: "string list"
  ph_attachments :: "Attachment list option"

record Project =
  p_id :: string
  p_title :: string
  p_description :: string
  p_status :: Status
  p_startDate :: string
  p_endDate :: string
  p_tasks :: "Task list"
  p_phases :: "Phase list"
  p_resources :: "Resource list"
  p_labels :: "string list"
  p_attachments :: "Attachment list option"

record AreaGroup =
  g_id :: string
  g_title :: string

record Area =
  a_id :: string
  a_title :: string
  a_description :: "string option"
  a_icon :: string
  a_tasks :: "Task list"
  a_projects :: "Project list"
  a_resources :: "Resource list"
  a_labels :: "string list"
  a_groupId :: "string option"

record LifeOSData =
  areaGroups :: "AreaGroup list"
  areas :: "Area list"
  inbox :: "Task list"

subsection \<open>Task containers and the one-location invariant\<close>

text \<open>
  The task containers of a document, in the order every handler walks them: the inbox,
  then for each area its direct list, and for each of its projects the project's direct
  list followed by the lists of the project's phases.
\<close>

definition projectContainers :: "Project \<Rightarrow> Task list list" where
  "projectContainers project = p_tasks project # map ph_tasks (p_phases project)"

definition areaContainers :: "Area \<Rightarrow> Task list list" where
  "areaContainers area = a_tasks area # concat (map projectContainers (a_projects area))"

definition containers :: "LifeOSData \<Rightarrow> Task list list" where
  "containers d = inbox d # concat (map areaContainers (areas d))"

definition taskIds :: "LifeOSData \<Rightarrow> string list" where
  "taskIds d = map t_id (concat (containers d))"

text \<open>How often a task id occurs over all containers of the document.\<close>

definition occurrences :: "string \<Rightarrow> LifeOSData \<Rightarrow> nat" where
  "occurrences taskId d = length (filter (\<lambda>i. i = taskId) (taskIds d))"

text \<open>One-location invariant: no task id occurs twice, in one container or in two.\<close>

definition one_location :: "LifeOSData \<Rightarrow> bool" where
  "one_location d = distinct (taskIds d)"

text \<open>The document with every task list emptied: everything that is not a task.\<close>

definition stripPhase :: "Phase \<Rightarrow> Phase" where
  "stripPhase phase = phase\<lparr>ph_tasks := []\<rparr>"

definition stripProject :: "Project \<Rightarrow> Project" where
  "stripProject project =
     project\<lparr>p_tasks := [], p_phases := map stripPhase (p_phases project)\<rparr>"

definition stripArea :: "Area \<Rightarrow> Area" where
  "stripArea area = area\<lparr>a_tasks := [], a_projects := map stripProject (a_projects area)\<rparr>"

definition stripTasks :: "LifeOSData \<Rightarrow> LifeOSData" where
  "stripTasks d = d\<lparr>inbox := [], areas := map stripArea (areas d)\<rparr>"

section \<open>Mutation operations of the hook (src/hooks/useLifeOS.ts)\<close>

text \<open>
  The handlers clone the document with \<^verbatim>\<open>JSON.parse(JSON.stringify(prev))\<close> and mutate the
  clone; on values the clone is the document itself, and a \<^verbatim>\<open>forEach\<close> that rewrites one
  field of every element is a \<open>map\<close>.
\<close>

definition deleteTask :: "string \<Rightarrow> LifeOSData \<Rightarrow> LifeOSData" where
  "deleteTask taskId prev =
     prev\<lparr>inbox := filter (\<lambda>t. t_id t \<noteq> taskId) (inbox prev),
          areas := map (\<lambda>area.
            area\<lparr>a_tasks := filter (\<lambda>t. t_id t \<noteq> taskId) (a_tasks area),
                 a_projects := map (\<lambda>project.
                   project\<lparr>p_tasks := filter (\<lambda>t. t_id t \<noteq> taskId) (p_tasks project),
                           p_phases := map (\<lambda>phase.
                             phase\<lparr>ph_tasks := filter (\<lambda>t. t_id t \<noteq> taskId) (ph_tasks phase)\<rparr>)
                             (p_phases project)\<rparr>)
                   (a_projects area)\<rparr>)
            (areas prev)\<rparr>"

text \<open>
  \<^verbatim>\<open>addArea\<close>: the identifier comes from \<^verbatim>\<open>crypto.randomUUID()\<close> and is a parameter
  here. The new area is spread after the existing ones.
\<close>

definition newArea :: "string \<Rightarrow> string \<Rightarrow> string \<Rightarrow> string option \<Rightarrow> Area" where
  "newArea newId title icon groupId =
     \<lparr>a_id = newId, a_title = title, a_description = None, a_icon = icon,
      a_tasks = [], a_projects = [], a_resources = [], a_labels = [], a_groupId = groupId\<rparr>"

definition addArea :: "string \<Rightarrow> string \<Rightarrow> string \<Rightarrow> string option \<Rightarrow> LifeOSData \<Rightarrow> LifeOSData" where
  "addArea newId title icon groupId prev =
     prev\<lparr>areas := areas prev @ [newArea newId title icon groupId]\<rparr>"

section \<open>Mutation handlers of the application (src/App.tsx)\<close>

text \<open>
  \<^verbatim>\<open>String.prototype.trim\<close> on the code units an Isabelle \<open>char\<close> can hold: the
  white space and line terminators of ECMAScript below 256 are TAB, LF, VT, FF, CR, SP and
  NBSP.
\<close>

definition isWhiteSpace :: "char \<Rightarrow> bool" where
  "isWhiteSpace c = (c \<in> {CHR 0x09, CHR 0x0A, CHR 0x0B, CHR 0x0C, CHR 0x0D, CHR 0x20, CHR 0xA0})"

definition trim :: "string \<Rightarrow> string" where
  "trim s = rev (dropWhile isWhiteSpace (rev (dropWhile isWhiteSpace s)))"

text \<open>
  \<^verbatim>\<open>const x = xs.find(p); if (x) { ...mutate x... }\<close>: the first element that satisfies
  the predicate is rewritten, the list is unchanged when there is none.
\<close>

fun mutateFound :: "('a \<Rightarrow> bool) \<Rightarrow> ('a \<Rightarrow> 'a) \<Rightarrow> 'a list \<Rightarrow> 'a list" where
  "mutateFound P f [] = []"
| "mutateFound P f (x # xs) = (if P x then f x # xs else x # mutateFound P f xs)"

text \<open>
  \<^verbatim>\<open>handleAddGroup\<close>: \<^verbatim>\<open>generateId()\<close> is the parameter \<open>newId\<close>. With a blank title
  \<^verbatim>\<open>updateData\<close> is not called and the document stays.
\<close>

definition newGroup :: "string \<Rightarrow> string \<Rightarrow> AreaGroup" where
  "newGroup newId newGroupTitle = \<lparr>g_id = newId, g_title = trim newGroupTitle\<rparr>"

definition handleAddGroup :: "string \<Rightarrow> string \<Rightarrow> LifeOSData \<Rightarrow> LifeOSData" where
  "handleAddGroup newId newGroupTitle data =
     (if trim newGroupTitle \<noteq> []
      then data\<lparr>areaGroups := areaGroups data @ [newGroup newId newGroupTitle]\<rparr>
      else data)"

datatype TargetType = TInbox | TArea | TProject | TPhase

text \<open>An optional string argument is truthy when it is given and not empty.\<close>

fun truthyId :: "string option \<Rightarrow> bool" where
  "truthyId None = False"
| "truthyId (Some s) = (s \<noteq> [])"

text \<open>
  The four-branch insertion that \<^verbatim>\<open>handleAddTask\<close> and \<^verbatim>\<open>moveTask\<close> both contain:
  \<^verbatim>\<open>unshift\<close> into the inbox, into the first area of that id, into the first project of
  that id in every area, or into the first phase of that id in every project. When the
  target is not found, nothing is inserted.
\<close>

definition unshiftAtTarget :: "Task \<Rightarrow> TargetType \<Rightarrow> string option \<Rightarrow> LifeOSData \<Rightarrow> LifeOSData" where
  "unshiftAtTarget task target tid newData =
     (if target = TInbox then newData\<lparr>inbox := task # inbox newData\<rparr>
      else if target = TArea \<and> truthyId tid then
        newData\<lparr>areas := mutateFound (\<lambda>a. Some (a_id a) = tid)
                   (\<lambda>area. area\<lparr>a_tasks := task # a_tasks area\<rparr>) (areas newData)\<rparr>
      else if target = TProject \<and> truthyId tid then
        newData\<lparr>areas := map (\<lambda>area.
                   area\<lparr>a_projects := mutateFound (\<lambda>p. Some (p_id p) = tid)
                          (\<lambda>project. project\<lparr>p_tasks := task # p_tasks project\<rparr>)
                          (a_projects area)\<rparr>)
                 (areas newData)\<rparr>
      else if target = TPhase \<and> truthyId tid then
        newData\<lparr>areas := map (\<lambda>area.
                   area\<lparr>a_projects := map (\<lambda>project.
                          project\<lparr>p_phases := mutateFound (\<lambda>ph. Some (ph_id ph) = tid)
                                   (\<lambda>phase. phase\<lparr>ph_tasks := task # ph_tasks phase\<rparr>)
                                   (p_phases project)\<rparr>)
                        (a_projects area)\<rparr>)
                 (areas newData)\<rparr>
      else newData)"

text \<open>
  \<^verbatim>\<open>handleAddTask\<close>: \<^verbatim>\<open>generateId()\<close> and \<^verbatim>\<open>new Date().toISOString()\<close> are the
  parameters \<open>newId\<close> and \<open>now\<close>.
\<close>

definition newTask :: "string \<Rightarrow> string \<Rightarrow> string \<Rightarrow> Task" where
  "newTask newId now title =
     \<lparr>t_id = newId, t_title = (if title \<noteq> [] then title else ''New Task''),
      t_description = Some [], t_status = Backlog, t_priority = P2, t_contextTags = [],
      t_energy = Low, t_deadline = None, t_labels = [], t_attachments = None,
      t_createdAt = now\<rparr>"

definition handleAddTask ::
  "string \<Rightarrow> string \<Rightarrow> string \<Rightarrow> TargetType \<Rightarrow> string option \<Rightarrow> LifeOSData \<Rightarrow> LifeOSData" where
  "handleAddTask newId now title target tid data =
     unshiftAtTarget (newTask newId now title) target tid data"

text \<open>
  \<^verbatim>\<open>handleAddProject\<close>: \<open>now\<close> and \<open>inAWeek\<close> are the two dates the handler computes. The
  handler calls \<^verbatim>\<open>updateData\<close> only when the area exists.
\<close>

definition newProject :: "string \<Rightarrow> string \<Rightarrow> string \<Rightarrow> string \<Rightarrow> Project" where
  "newProject newId now inAWeek title =
     \<lparr>p_id = newId, p_title = (if title \<noteq> [] then title else ''New Project''),
      p_description = [], p_status = Backlog, p_startDate = now, p_endDate = inAWeek,
      p_tasks = [], p_phases = [], p_resources = [], p_labels = [], p_attachments = None\<rparr>"

definition handleAddProject ::
  "string \<Rightarrow> string \<Rightarrow> string \<Rightarrow> string \<Rightarrow> string \<Rightarrow> LifeOSData \<Rightarrow> LifeOSData" where
  "handleAddProject newId now inAWeek title areaId data =
     (case find (\<lambda>a. a_id a = areaId) (areas data) of
        Some area \<Rightarrow>
          data\<lparr>areas := mutateFound (\<lambda>a. a_id a = areaId)
                 (\<lambda>area. area\<lparr>a_projects := newProject newId now inAWeek title # a_projects area\<rparr>)
                 (areas data)\<rparr>
      | None \<Rightarrow> data)"

definition newPhase :: "string \<Rightarrow> string \<Rightarrow> Phase" where
  "newPhase newId title =
     \<lparr>ph_id = newId, ph_title = (if title \<noteq> [] then title else ''New Phase''),
      ph_description = Some [], ph_status = Backlog, ph_startDate = None, ph_endDate = None,
      ph_tasks = [], ph_labels = [], ph_attachments = None\<rparr>"

definition handleAddPhase :: "string \<Rightarrow> string \<Rightarrow> string \<Rightarrow> LifeOSData \<Rightarrow> LifeOSData" where
  "handleAddPhase newId title projectId data =
     data\<lparr>areas := map (\<lambda>area.
            area\<lparr>a_projects := mutateFound (\<lambda>p. p_id p = projectId)
                   (\<lambda>project. project\<lparr>p_phases := p_phases project @ [newPhase newId title]\<rparr>)
                   (a_projects area)\<rparr>)
          (areas data)\<rparr>"

datatype UploadType = UProject | UPhase | UTask

text \<open>\<^verbatim>\<open>[...(x.attachments || []), attachment]\<close>\<close>

definition pushAttachment :: "Attachment \<Rightarrow> Attachment list option \<Rightarrow> Attachment list option" where
  "pushAttachment attachment old =
     Some ((case old of None \<Rightarrow> [] | Some xs \<Rightarrow> xs) @ [attachment])"

text \<open>
  \<^verbatim>\<open>handleFileUpload\<close>: the attachment record the handler builds from the file is the
  parameter \<open>attachment\<close>.
\<close>

definition handleFileUpload :: "Attachment \<Rightarrow> string \<Rightarrow> UploadType \<Rightarrow> LifeOSData \<Rightarrow> LifeOSData" where
  "handleFileUpload attachment targetId type data =
     (let updateInList = mutateFound (\<lambda>t. t_id t = targetId)
            (\<lambda>task. task\<lparr>t_attachments := pushAttachment attachment (t_attachments task)\<rparr>)
      in case type of
        UTask \<Rightarrow>
          data\<lparr>inbox := updateInList (inbox data),
               areas := map (\<lambda>area.
                 area\<lparr>a_projects := map (\<lambda>project.
                   project\<lparr>p_phases := map (\<lambda>phase.
                     phase\<lparr>ph_tasks := updateInList (ph_tasks phase)\<rparr>) (p_phases project)\<rparr>)
                   (a_projects area)\<rparr>)
                 (areas data)\<rparr>
      | UProject \<Rightarrow>
          data\<lparr>areas := map (\<lambda>area.
                 area\<lparr>a_projects := mutateFound (\<lambda>p. p_id p = targetId)
                   (\<lambda>project. project\<lparr>p_attachments :=
                      pushAttachment attachment (p_attachments project)\<rparr>)
                   (a_projects area)\<rparr>)
                 (areas data)\<rparr>
      | UPhase \<Rightarrow>
          data\<lparr>areas := map (\<lambda>area.
                 area\<lparr>a_projects := map (\<lambda>project.
                   project\<lparr>p_phases := mutateFound (\<lambda>ph. ph_id ph = targetId)
                     (\<lambda>phase. phase\<lparr>ph_attachments :=
                        pushAttachment attachment (ph_attachments phase)\<rparr>)
                     (p_phases project)\<rparr>)
                   (a_projects area)\<rparr>)
                 (areas data)\<rparr>)"

text \<open>
  \<^verbatim>\<open>moveTask\<close>. \<^verbatim>\<open>removeFromList\<close> splices the first task of that id out of one list
  (\<^verbatim>\<open>findIndex\<close>, \<^verbatim>\<open>splice\<close>) and assigns it to \<^verbatim>\<open>taskToMove\<close>; the variable is threaded
  through the walk over all containers, a later find overwriting an earlier one.
\<close>

fun removeFromList :: "string \<Rightarrow> Task list \<Rightarrow> Task list \<times> Task option" where
  "removeFromList taskId [] = ([], None)"
| "removeFromList taskId (t # ts) =
     (if t_id t = taskId then (ts, Some t)
      else (case removeFromList taskId ts of (ts', found) \<Rightarrow> (t # ts', found)))"

fun assign :: "'a option \<Rightarrow> 'a option \<Rightarrow> 'a option" where
  "assign (Some t) old = Some t"
| "assign None old = old"

fun removeFromPhases :: "string \<Rightarrow> Phase list \<Rightarrow> Task option \<Rightarrow> Phase list \<times> Task option" where
  "removeFromPhases taskId [] taskToMove = ([], taskToMove)"
| "removeFromPhases taskId (phase # phases) taskToMove =
     (case removeFromList taskId (ph_tasks phase) of (ts, found) \<Rightarrow>
      case removeFromPhases taskId phases (assign found taskToMove) of (rest, moved) \<Rightarrow>
        (phase\<lparr>ph_tasks := ts\<rparr> # rest, moved))"

fun removeFromProjects :: "string \<Rightarrow> Project list \<Rightarrow> Task option \<Rightarrow> Project list \<times> Task option" where
  "removeFromProjects taskId [] taskToMove = ([], taskToMove)"
| "removeFromProjects taskId (project # projects) taskToMove =
     (case removeFromList taskId (p_tasks project) of (ts, found) \<Rightarrow>
      case removeFromPhases taskId (p_phases project) (assign found taskToMove) of (phs, moved) \<Rightarrow>
      case removeFromProjects taskId projects moved of (rest, moved') \<Rightarrow>
        (project\<lparr>p_tasks := ts, p_phases := phs\<rparr> # rest, moved'))"

fun removeFromAreas :: "string \<Rightarrow> Area list \<Rightarrow> Task option \<Rightarrow> Area list \<times> Task option" where
  "removeFromAreas taskId [] taskToMove = ([], taskToMove)"
| "removeFromAreas taskId (area # rest) taskToMove =
     (case removeFromList taskId (a_tasks area) of (ts, found) \<Rightarrow>
      case removeFromProjects taskId (a_projects area) (assign found taskToMove) of (ps, moved) \<Rightarrow>
      case removeFromAreas taskId rest moved of (rest', moved') \<Rightarrow>
        (area\<lparr>a_tasks := ts, a_projects := ps\<rparr> # rest', moved'))"

text \<open>
  When a task was found, the handler inserts it at the target and calls \<^verbatim>\<open>updateData\<close>
  with the clone, whether or not the target exists; when none was found the document
  stays.
\<close>

definition moveTask :: "string \<Rightarrow> TargetType \<Rightarrow> string option \<Rightarrow> LifeOSData \<Rightarrow> LifeOSData" where
  "moveTask taskId targetType targetId data =
     (case removeFromList taskId (inbox data) of (inbox', found) \<Rightarrow>
      case removeFromAreas taskId (areas data) (assign found None) of (areas', taskToMove) \<Rightarrow>
      case taskToMove of
        None \<Rightarrow> data
      | Some task \<Rightarrow>
          unshiftAtTarget task targetType targetId (data\<lparr>inbox := inbox', areas := areas'\<rparr>))"

text \<open>
  The value of \<^verbatim>\<open>taskToMove\<close> after the walk over a list of containers: the first task
  of that id in the last container that holds one, or the value before the walk.
\<close>

definition foundIn :: "string \<Rightarrow> Task list list \<Rightarrow> Task option \<Rightarrow> Task option" where
  "foundIn taskId cs taskToMove =
     foldl (\<lambda>moved c. assign (find (\<lambda>t. t_id t = taskId) c) moved) taskToMove cs"

text \<open>
  \<^verbatim>\<open>moveProject\<close>, the sibling of \<^verbatim>\<open>moveTask\<close>: the project is spliced out of every area
  that holds one of that id (the last one found is kept), and \<^verbatim>\<open>updateData\<close> is called
  only inside \<^verbatim>\<open>if (targetArea)\<close>, so a missing target leaves the document as it was.
\<close>

fun spliceProject :: "string \<Rightarrow> Project list \<Rightarrow> Project list \<times> Project option" where
  "spliceProject projectId [] = ([], None)"
| "spliceProject projectId (p # ps) =
     (if p_id p = projectId then (ps, Some p)
      else (case spliceProject projectId ps of (ps', found) \<Rightarrow> (p # ps', found)))"

fun spliceFromAreas :: "string \<Rightarrow> Area list \<Rightarrow> Project option \<Rightarrow> Area list \<times> Project option" where
  "spliceFromAreas projectId [] projectToMove = ([], projectToMove)"
| "spliceFromAreas projectId (area # rest) projectToMove =
     (case spliceProject projectId (a_projects area) of (ps, found) \<Rightarrow>
      case spliceFromAreas projectId rest (assign found projectToMove) of (rest', moved) \<Rightarrow>
        (area\<lparr>a_projects := ps\<rparr> # rest', moved))"

definition moveProject :: "string \<Rightarrow> string \<Rightarrow> LifeOSData \<Rightarrow> LifeOSData" where
  "moveProject projectId targetAreaId data =
     (case spliceFromAreas projectId (areas data) None of (areas', projectToMove) \<Rightarrow>
      case projectToMove of
        None \<Rightarrow> data
      | Some project \<Rightarrow>
          (case find (\<lambda>a. a_id a = targetAreaId) areas' of
             Some targetArea \<Rightarrow>
               data\<lparr>areas := mutateFound (\<lambda>a. a_id a = targetAreaId)
                      (\<lambda>targetArea. targetArea\<lparr>a_projects := project # a_projects targetArea\<rparr>)
                      areas'\<rparr>
           | None \<Rightarrow> data))"

text \<open>\<^verbatim>\<open>toggleTaskStatus\<close>: in every container the first task of that id is flipped.\<close>

definition updateTaskStatus :: "string \<Rightarrow> Task list \<Rightarrow> Task list" where
  "updateTaskStatus taskId tasks =
     mutateFound (\<lambda>t. t_id t = taskId)
       (\<lambda>task. task\<lparr>t_status := (if t_status task = Done then InProgress else Done)\<rparr>) tasks"

definition toggleTaskStatus :: "string \<Rightarrow> LifeOSData \<Rightarrow> LifeOSData" where
  "toggleTaskStatus taskId data =
     data\<lparr>inbox := updateTaskStatus taskId (inbox data),
          areas := map (\<lambda>area.
            area\<lparr>a_tasks := updateTaskStatus taskId (a_tasks area),
                 a_projects := map (\<lambda>project.
                   project\<lparr>p_tasks := updateTaskStatus taskId (p_tasks project),
                           p_phases := map (\<lambda>phase.
                             phase\<lparr>ph_tasks := updateTaskStatus taskId (ph_tasks phase)\<rparr>)
                             (p_phases project)\<rparr>)
                   (a_projects area)\<rparr>)
            (areas data)\<rparr>"

text \<open>
  The tasks outside the inbox, by kind of container: the direct lists of areas and
  projects, and the lists of phases.
\<close>

definition directTasks :: "LifeOSData \<Rightarrow> Task list" where
  "directTasks d =
     concat (map (\<lambda>area. a_tasks area @ concat (map p_tasks (a_projects area))) (areas d))"

definition phaseTasks :: "LifeOSData \<Rightarrow> Task list" where
  "phaseTasks d =
     concat (map (\<lambda>area. concat (map (\<lambda>project. concat (map ph_tasks (p_phases project)))
       (a_projects area))) (areas d))"

section \<open>Untyped documents and the normalizer (src/hooks/useLifeOS.ts)\<close>

text \<open>
  \<^verbatim>\<open>normalizeData(parsed: any)\<close> receives what \<^verbatim>\<open>JSON.parse\<close> or the remote store
  returned, so its argument is a JSON value. An object is the list of its own properties
  in enumeration order; no value is \<^verbatim>\<open>undefined\<close>, which only arises from reading a
  property that is missing.
\<close>

datatype json =
  JNull
| JBool bool
| JNum rat
| JStr string
| JArr "json list"
| JObj "(string \<times> json) list"

datatype js_error = TypeError

text \<open>Truthiness: \<^verbatim>\<open>null\<close>, \<^verbatim>\<open>false\<close>, \<^verbatim>\<open>0\<close> and \<^verbatim>\<open>""\<close> are falsy.\<close>

fun truthy :: "json \<Rightarrow> bool" where
  "truthy JNull = False"
| "truthy (JBool b) = b"
| "truthy (JNum n) = (n \<noteq> 0)"
| "truthy (JStr s) = (s \<noteq> [])"
| "truthy (JArr xs) = True"
| "truthy (JObj kvs) = True"

text \<open>\<^verbatim>\<open>x || d\<close>, where \<open>None\<close> is \<^verbatim>\<open>undefined\<close>.\<close>

fun orElse :: "json option \<Rightarrow> json \<Rightarrow> json" where
  "orElse None d = d"
| "orElse (Some v) d = (if truthy v then v else d)"

text \<open>
  \<^verbatim>\<open>t.k\<close> for a value other than \<^verbatim>\<open>null\<close> (on \<^verbatim>\<open>null\<close> the read throws, which the callers
  test first). The normalizer reads the names \<^verbatim>\<open>areaGroups\<close>, \<^verbatim>\<open>inbox\<close>, \<^verbatim>\<open>areas\<close>,
  \<^verbatim>\<open>labels\<close>, \<^verbatim>\<open>description\<close>, \<^verbatim>\<open>tasks\<close>, \<^verbatim>\<open>projects\<close>, \<^verbatim>\<open>status\<close>, \<^verbatim>\<open>attachments\<close>,
  \<^verbatim>\<open>phases\<close> and \<^verbatim>\<open>contextTags\<close> only; none of them is a property of an array, a string,
  a number or a boolean, nor inherited by an object.
\<close>

fun getProp :: "json \<Rightarrow> string \<Rightarrow> json option" where
  "getProp (JObj kvs) k = map_of kvs k"
| "getProp v k = None"

text \<open>Decimal numerals, the property names of the elements of an array or a string.\<close>

fun decimal :: "nat \<Rightarrow> string" where
  "decimal n =
     (if n < 10 then [char_of (48 + n)] else decimal (n div 10) @ [char_of (48 + n mod 10)])"

text \<open>
  \<^verbatim>\<open>{...t}\<close>: the own enumerable properties. An array and a string spread their
  elements under their indices; \<^verbatim>\<open>null\<close>, a number and a boolean spread nothing.
\<close>

fun spread :: "json \<Rightarrow> (string \<times> json) list" where
  "spread (JObj kvs) = kvs"
| "spread (JArr xs) = zip (map decimal [0..<length xs]) xs"
| "spread (JStr s) = zip (map decimal [0..<length s]) (map (\<lambda>c. JStr [c]) s)"
| "spread v = []"

text \<open>
  The properties written after the spread in an object literal, in their order: a name
  that exists keeps its place and takes the new value, a new name goes to the end.
\<close>

definition withProps :: "(string \<times> json) list \<Rightarrow> (string \<times> json) list \<Rightarrow> (string \<times> json) list" where
  "withProps obj kvs = foldl (\<lambda>acc (k, v). AList.update k v acc) obj kvs"

text \<open>\<^verbatim>\<open>xs.map(f)\<close> where \<open>f\<close> may throw: the first exception ends the walk.\<close>

fun mapE :: "(json \<Rightarrow> js_error + json) \<Rightarrow> json list \<Rightarrow> js_error + json list" where
  "mapE f [] = Inr []"
| "mapE f (x # xs) =
     (case f x of
        Inl e \<Rightarrow> Inl e
      | Inr y \<Rightarrow> (case mapE f xs of Inl e \<Rightarrow> Inl e | Inr ys \<Rightarrow> Inr (y # ys)))"

text \<open>
  \<^verbatim>\<open>(x || []).map(f)\<close>: a truthy value that is not an array has no function \<^verbatim>\<open>map\<close>, and
  the call throws a TypeError.
\<close>

definition mapOrEmpty :: "json option \<Rightarrow> (json \<Rightarrow> js_error + json) \<Rightarrow> js_error + json" where
  "mapOrEmpty x f =
     (case orElse x (JArr []) of
        JArr xs \<Rightarrow> (case mapE f xs of Inl e \<Rightarrow> Inl e | Inr ys \<Rightarrow> Inr (JArr ys))
      | _ \<Rightarrow> Inl TypeError)"

definition normalizeTask :: "json \<Rightarrow> js_error + json" where
  "normalizeTask t =
     (if t = JNull then Inl TypeError
      else Inr (JObj (withProps (spread t)
        [(''description'', orElse (getProp t ''description'') (JStr [])),
         (''labels'', orElse (getProp t ''labels'') (JArr [])),
         (''attachments'', orElse (getProp t ''attachments'') (JArr [])),
         (''contextTags'', orElse (getProp t ''contextTags'') (JArr []))])))"

definition normalizePhase :: "json \<Rightarrow> js_error + json" where
  "normalizePhase phase =
     (if phase = JNull then Inl TypeError
      else case mapOrEmpty (getProp phase ''tasks'') normalizeTask of
        Inl e \<Rightarrow> Inl e
      | Inr tasks \<Rightarrow> Inr (JObj (withProps (spread phase)
          [(''status'', orElse (getProp phase ''status'') (JStr ''Backlog'')),
           (''labels'', orElse (getProp phase ''labels'') (JArr [])),
           (''attachments'', orElse (getProp phase ''attachments'') (JArr [])),
           (''tasks'', tasks)])))"

definition normalizeProject :: "json \<Rightarrow> js_error + json" where
  "normalizeProject project =
     (if project = JNull then Inl TypeError
      else case mapOrEmpty (getProp project ''tasks'') normalizeTask of
        Inl e \<Rightarrow> Inl e
      | Inr tasks \<Rightarrow>
         (case mapOrEmpty (getProp project ''phases'') normalizePhase of
            Inl e \<Rightarrow> Inl e
          | Inr phases \<Rightarrow> Inr (JObj (withProps (spread project)
              [(''status'', orElse (getProp project ''status'') (JStr ''Backlog'')),
               (''labels'', orElse (getProp project ''labels'') (JArr [])),
               (''attachments'', orElse (getProp project ''attachments'') (JArr [])),
               (''tasks'', tasks),
               (''phases'', phases)]))))"

definition normalizeArea :: "json \<Rightarrow> js_error + json" where
  "normalizeArea area =
     (if area = JNull then Inl TypeError
      else case mapOrEmpty (getProp area ''tasks'') normalizeTask of
        Inl e \<Rightarrow> Inl e
      | Inr tasks \<Rightarrow>
         (case mapOrEmpty (getProp area ''projects'') normalizeProject of
            Inl e \<Rightarrow> Inl e
          | Inr projects \<Rightarrow> Inr (JObj (withProps (spread area)
              [(''labels'', orElse (getProp area ''labels'') (JArr [])),
               (''description'', orElse (getProp area ''description'') (JStr [])),
               (''tasks'', tasks),
               (''projects'', projects)]))))"

definition normalizeData :: "json \<Rightarrow> js_error + json" where
  "normalizeData parsed =
     (if parsed = JNull then Inl TypeError
      else case mapOrEmpty (getProp parsed ''inbox'') normalizeTask of
        Inl e \<Rightarrow> Inl e
      | Inr inbox' \<Rightarrow>
         (case mapOrEmpty (getProp parsed ''areas'') normalizeArea of
            Inl e \<Rightarrow> Inl e
          | Inr areas' \<Rightarrow> Inr (JObj (withProps (spread parsed)
              [(''areaGroups'', orElse (getProp parsed ''areaGroups'') (JArr [])),
               (''inbox'', inbox'),
               (''areas'', areas')]))))"

text \<open>Normalizing the result of a normalization; a TypeError of the first call propagates.\<close>

definition normalizeTwice :: "json \<Rightarrow> js_error + json" where
  "normalizeTwice D = (case normalizeData D of Inl e \<Rightarrow> Inl e | Inr D' \<Rightarrow> normalizeData D')"

definition INITIAL_DATA :: json where
  "INITIAL_DATA = JObj
     [(''areaGroups'', JArr []),
      (''areas'', JArr
        [JObj [(''id'', JStr ''1''), (''title'', JStr ''Work''), (''icon'', JStr ''briefcase''),
               (''tasks'', JArr []), (''projects'', JArr []), (''resources'', JArr []),
               (''labels'', JArr [])],
         JObj [(''id'', JStr ''2''), (''title'', JStr ''Health''), (''icon'', JStr ''heart''),
               (''tasks'', JArr []), (''projects'', JArr []), (''resources'', JArr []),
               (''labels'', JArr [])]]),
      (''inbox'', JArr [])]"

text \<open>
  The initializer of the hook's state. The local cache holds nothing (\<open>None\<close>, or the
  empty string, both falsy) or the serialization of a JSON value, which \<^verbatim>\<open>JSON.parse\<close>
  gives back.
\<close>

definition initialState :: "json option \<Rightarrow> js_error + json" where
  "initialState saved =
     normalizeData (case saved of Some parsed \<Rightarrow> parsed | None \<Rightarrow> INITIAL_DATA)"

section \<open>The sync engine of the hook (src/hooks/useLifeOS.ts)\<close>

text \<open>
  The state of \<^verbatim>\<open>useLifeOS\<close>: the three \<^verbatim>\<open>useState\<close> cells, the two refs, the identity
  from \<^verbatim>\<open>useAuth\<close>, and the two stores the hook writes. \<open>saveTimeout\<close> is the timer that
  is pending (set and neither fired nor cleared), with the time it is due and the
  \<^verbatim>\<open>user.id\<close> and \<^verbatim>\<open>data\<close> its callback closed over. \<open>localStorage\<close> is the entry under
  \<^verbatim>\<open>STORAGE_KEY\<close>, as the value its string parses to, and \<open>setItemCalls\<close> the values
  written to it, oldest first. \<open>upserts\<close> are the calls of \<^verbatim>\<open>upsert\<close> on \<^verbatim>\<open>user_data\<close>, oldest
  first. \<open>now\<close> is the clock, in milliseconds.
\<close>

record 'd upsert_row =
  user_id :: string
  row_data :: 'd
  updated_at :: nat

record 'd hook_state =
  data :: 'd
  syncing :: bool
  lastSyncError :: "string option"
  saveTimeout :: "(nat \<times> string \<times> 'd) option"
  loadedFromCloud :: bool
  user :: "string option"
  localStorage :: "'d option"
  setItemCalls :: "'d list"
  upserts :: "'d upsert_row list"
  now :: nat

text \<open>What the store answers: an awaited call throws, or returns with or without an error.\<close>

datatype store_error = StoreError (code: string) (message: string)

datatype read_response =
  ReadThrew string
| ReadReturned "json option" "store_error option"

datatype upsert_response =
  UpsertThrew string
| UpsertReturned "store_error option"

definition setItem :: "'d \<Rightarrow> 'd hook_state \<Rightarrow> 'd hook_state" where
  "setItem v s = s\<lparr>localStorage := Some v, setItemCalls := setItemCalls s @ [v]\<rparr>"

definition upsert :: "string \<Rightarrow> 'd \<Rightarrow> 'd hook_state \<Rightarrow> 'd hook_state" where
  "upsert uid v s =
     s\<lparr>upserts := upserts s @ [\<lparr>user_id = uid, row_data = v, updated_at = now s\<rparr>]\<rparr>"

text \<open>
  \<^verbatim>\<open>loadFromCloud\<close>. In \<open>ReadReturned rowData error\<close>, \<open>rowData\<close> is \<^verbatim>\<open>row?.data\<close>
  (\<open>None\<close> when the row is \<^verbatim>\<open>null\<close>). \<open>seedResponse\<close> is what the seed \<^verbatim>\<open>upsert\<close> answers
  when it is called; an error it returns is not looked at. \<open>msg\<close> gives the message of an
  exception of the normalizer. The \<^verbatim>\<open>finally\<close> block runs on every path. The effect on
  \<^verbatim>\<open>[data, user]\<close> that React runs after \<^verbatim>\<open>setData(cloudData)\<close> is \<open>saveEffect\<close> below and
  not part of this function.
\<close>

definition loadFromCloud ::
  "(js_error \<Rightarrow> string) \<Rightarrow> string \<Rightarrow> read_response \<Rightarrow> upsert_response \<Rightarrow>
   json hook_state \<Rightarrow> json hook_state" where
  "loadFromCloud msg uid response seedResponse s =
     (let s1 = s\<lparr>syncing := True\<rparr>;
          tried =
           (case response of
              ReadThrew m \<Rightarrow> s1\<lparr>lastSyncError := Some m\<rparr>
            | ReadReturned rowData error \<Rightarrow>
               if (case error of
                     Some e \<Rightarrow> code e \<noteq> ''PGRST116''
                   | None \<Rightarrow> False) then s1\<lparr>lastSyncError := map_option message error\<rparr>
               else if (case rowData of Some v \<Rightarrow> truthy v | None \<Rightarrow> False) then
                 (case normalizeData (the rowData) of
                    Inl e \<Rightarrow> s1\<lparr>lastSyncError := Some (msg e)\<rparr>
                  | Inr cloudData \<Rightarrow>
                      (setItem cloudData (s1\<lparr>data := cloudData\<rparr>))
                        \<lparr>loadedFromCloud := True, lastSyncError := None\<rparr>)
               else
                 (case localStorage s1 of
                    Some localData \<Rightarrow>
                      if truthy localData then
                        (case seedResponse of
                           UpsertThrew m \<Rightarrow> (upsert uid localData s1)\<lparr>lastSyncError := Some m\<rparr>
                         | UpsertReturned e \<Rightarrow>
                             (upsert uid localData s1)
                               \<lparr>loadedFromCloud := True, lastSyncError := None\<rparr>)
                      else s1\<lparr>loadedFromCloud := True, lastSyncError := None\<rparr>
                  | None \<Rightarrow> s1\<lparr>loadedFromCloud := True, lastSyncError := None\<rparr>))
      in tried\<lparr>syncing := False\<rparr>)"

text \<open>The effect on \<^verbatim>\<open>[user]\<close>: one load per identity, guarded by the ref.\<close>

definition loadEffect ::
  "(js_error \<Rightarrow> string) \<Rightarrow> read_response \<Rightarrow> upsert_response \<Rightarrow>
   json hook_state \<Rightarrow> json hook_state" where
  "loadEffect msg response seedResponse s =
     (case user s of
        None \<Rightarrow> s\<lparr>loadedFromCloud := False\<rparr>
      | Some uid \<Rightarrow>
          if loadedFromCloud s then s else loadFromCloud msg uid response seedResponse s)"

text \<open>
  The effect on \<^verbatim>\<open>[data, user]\<close>. Before it runs again, the clean-up of its previous run
  clears the pending timer. Then the cache is written; with an identity the timer is set
  anew, 1000 ms ahead, closing over the identity and the document of this render.
\<close>

definition saveEffect :: "'d hook_state \<Rightarrow> 'd hook_state" where
  "saveEffect s =
     (let s1 = setItem (data s) (s\<lparr>saveTimeout := None\<rparr>)
      in case user s1 of
           None \<Rightarrow> s1
         | Some uid \<Rightarrow> s1\<lparr>saveTimeout := Some (now s1 + 1000, uid, data s1)\<rparr>)"

text \<open>A state change of the document: the new value is rendered and the effect runs.\<close>

definition setData :: "'d \<Rightarrow> 'd hook_state \<Rightarrow> 'd hook_state" where
  "setData v s = saveEffect (s\<lparr>data := v\<rparr>)"

text \<open>The callback of the timer, with what the store answers to its \<^verbatim>\<open>upsert\<close>.\<close>

definition saveCallback :: "upsert_response \<Rightarrow> string \<Rightarrow> 'd \<Rightarrow> 'd hook_state \<Rightarrow> 'd hook_state" where
  "saveCallback response uid v s =
     (let s1 = upsert uid v (s\<lparr>syncing := True\<rparr>);
          tried =
           (case response of
              UpsertThrew m \<Rightarrow> s1\<lparr>lastSyncError := Some m\<rparr>
            | UpsertReturned (Some e) \<Rightarrow> s1\<lparr>lastSyncError := Some (message e)\<rparr>
            | UpsertReturned None \<Rightarrow> s1\<lparr>lastSyncError := None\<rparr>)
      in tried\<lparr>syncing := False\<rparr>)"

text \<open>
  Time passes: a pending timer that falls due within the interval fires at its due time,
  and its callback runs with the given answer of the store.
\<close>

definition elapse :: "nat \<Rightarrow> upsert_response \<Rightarrow> 'd hook_state \<Rightarrow> 'd hook_state" where
  "elapse ms response s =
     (case saveTimeout s of
        Some (due, uid, v) \<Rightarrow>
          if due \<le> now s + ms
          then (saveCallback response uid v (s\<lparr>saveTimeout := None, now := due\<rparr>))
                 \<lparr>now := now s + ms\<rparr>
          else s\<lparr>now := now s + ms\<rparr>
      | None \<Rightarrow> s\<lparr>now := now s + ms\<rparr>)"

datatype 'd event = SetData 'd | Elapse nat upsert_response

fun step :: "'d event \<Rightarrow> 'd hook_state \<Rightarrow> 'd hook_state" where
  "step (SetData v) s = setData v s"
| "step (Elapse ms response) s = elapse ms response s"

fun run :: "'d event list \<Rightarrow> 'd hook_state \<Rightarrow> 'd hook_state" where
  "run [] s = s"
| "run (e # es) s = run es (step e s)"

text \<open>
  A burst of edits: a first edit, then each further edit after a gap. The answer of the
  store that goes with a gap is used only if a timer fires in it.
\<close>

definition burst :: "'d \<Rightarrow> (nat \<times> upsert_response \<times> 'd) list \<Rightarrow> 'd event list" where
  "burst v rest = SetData v # concat (map (\<lambda>(gap, response, w). [Elapse gap response, SetData w]) rest)"

definition edits :: "'d \<Rightarrow> (nat \<times> upsert_response \<times> 'd) list \<Rightarrow> 'd list" where
  "edits v rest = v # map (\<lambda>(gap, response, w). w) rest"

definition gaps :: "(nat \<times> upsert_response \<times> 'd) list \<Rightarrow> nat list" where
  "gaps rest = map (\<lambda>(gap, response, w). gap) rest"

section \<open>Sample documents and states\<close>

text \<open>Concrete inputs on which the theorems below are instantiated.\<close>

definition seeded :: LifeOSData where
  "seeded = \<lparr>areaGroups = [\<lparr>g_id = ''g1'', g_title = ''Life''\<rparr>],
             areas = [(newArea ''1'' ''Work'' ''briefcase'' (Some ''g1''))
                        \<lparr>a_projects := [(newProject ''p1'' ''2024-01-01'' ''2024-01-08'' ''Launch'')
                                           \<lparr>p_phases := [newPhase ''ph1'' ''Plan'']\<rparr>]\<rparr>],
             inbox = []\<rparr>"

definition sample :: LifeOSData where
  "sample = \<lparr>areaGroups = [],
             areas = [(newArea ''1'' ''Work'' ''briefcase'' None)
                        \<lparr>a_tasks := [newTask ''t2'' ''2024-01-02'' ''Write report''],
                         a_projects := [(newProject ''p1'' ''2024-01-01'' ''2024-01-08'' ''Launch'')
                            \<lparr>p_tasks := [(newTask ''t3'' ''2024-01-03'' ''Book venue'')\<lparr>t_status := Done\<rparr>],
                             p_phases := [(newPhase ''ph1'' ''Plan'')
                                \<lparr>ph_tasks := [newTask ''t4'' ''2024-01-04'' ''Draft agenda'']\<rparr>]\<rparr>]\<rparr>],
             inbox = [newTask ''t1'' ''2024-01-01'' ''Buy milk'']\<rparr>"

definition receipt :: Attachment where
  "receipt = \<lparr>att_id = ''a1'', att_name = ''receipt.pdf'', att_url = ''blob:1'',
               att_type = ''application/pdf'', att_size = 1024, att_createdAt = ''2024-01-05''\<rparr>"

text \<open>A signed-in hook whose documents are revision numbers, nothing pending.\<close>

definition idle :: "nat hook_state" where
  "idle = \<lparr>data = 0, syncing = False, lastSyncError = None, saveTimeout = None,
            loadedFromCloud = True, user = Some ''u1'', localStorage = Some 0,
            setItemCalls = [], upserts = [], now = 0\<rparr>"

text \<open>The document a hook holds after a cold start: the normalized \<open>INITIAL_DATA\<close>.\<close>

definition seedDocument :: json where
  "seedDocument = JObj
     [(''areaGroups'', JArr []),
      (''areas'', JArr
        [JObj [(''id'', JStr ''1''), (''title'', JStr ''Work''), (''icon'', JStr ''briefcase''),
               (''tasks'', JArr []), (''projects'', JArr []), (''resources'', JArr []),
               (''labels'', JArr []), (''description'', JStr [])],
         JObj [(''id'', JStr ''2''), (''title'', JStr ''Health''), (''icon'', JStr ''heart''),
               (''tasks'', JArr []), (''projects'', JArr []), (''resources'', JArr []),
               (''labels'', JArr []), (''description'', JStr [])]]),
      (''inbox'', JArr [])]"

text \<open>
  A hook mounted on an empty cache with an identity, 120 ms later, when the read of its
  load returns: the effect on \<^verbatim>\<open>[data, user]\<close> has run once, so the cache holds the
  document of the state and the timer of that run is pending, and the load has set
  \<open>syncing\<close>.
\<close>

definition signedIn :: "json hook_state" where
  "signedIn = \<lparr>data = seedDocument, syncing = True, lastSyncError = None,
                saveTimeout = Some (1000, ''u1'', seedDocument), loadedFromCloud = False,
                user = Some ''u1'', localStorage = Some seedDocument,
                setItemCalls = [seedDocument], upserts = [], now = 120\<rparr>"

section \<open>Facts about \<open>mutateFound\<close>\<close>

lemma mutateFound_none: "\<forall>x\<in>set xs. \<not> P x \<Longrightarrow> mutateFound P f xs = xs"
  by (induction xs) auto

lemma find_mutateFound:
  "(\<And>x. P x \<Longrightarrow> P (f x)) \<Longrightarrow> find P (mutateFound P f xs) = map_option f (find P xs)"
  by (induction xs) auto

lemma length_mutateFound: "length (mutateFound P f xs) = length xs"
  by (induction xs) auto

lemma nth_mutateFound:
  "i < length xs \<Longrightarrow>
   mutateFound P f xs ! i = (if P (xs ! i) \<and> (\<forall>j<i. \<not> P (xs ! j)) then f (xs ! i) else xs ! i)"
proof (induction xs arbitrary: i)
  case Nil then show ?case by simp
next
  case (Cons x xs)
  show ?case
  proof (cases i)
    case 0 then show ?thesis by simp
  next
    case (Suc k)
    with Cons.prems have k: "k < length xs" by simp
    show ?thesis
    proof (cases "P x")
      case True
      then show ?thesis using Suc by auto
    next
      case False
      have "(\<forall>j<Suc k. \<not> P ((x # xs) ! j)) = (\<forall>j<k. \<not> P (xs ! j))"
        using False by (auto simp: less_Suc_eq_0_disj)
      then show ?thesis using Suc False Cons.IH [OF k] by auto
    qed
  qed
qed

lemma mutateFound_distinct:
  "distinct (map g xs) \<Longrightarrow> mutateFound (\<lambda>x. g x = k) f xs = map (\<lambda>x. if g x = k then f x else x) xs"
proof (induction xs)
  case Nil then show ?case by simp
next
  case (Cons x xs)
  show ?case
  proof (cases "g x = k")
    case True
    with Cons.prems have "\<forall>y\<in>set xs. g y \<noteq> k" by (force simp: image_iff)
    then have "map (\<lambda>x. if g x = k then f x else x) xs = xs" by (intro map_idI) simp
    with True show ?thesis by simp
  next
    case False
    with Cons show ?thesis by simp
  qed
qed

section \<open>Deleting a task\<close>

lemma deleteTask_containers:
  "containers (deleteTask taskId d) = map (filter (\<lambda>t. t_id t \<noteq> taskId)) (containers d)"
  by (simp add: deleteTask_def containers_def areaContainers_def projectContainers_def
      map_concat comp_def)

lemma deleteTask_strip: "stripTasks (deleteTask taskId d) = stripTasks d"
  by (simp add: deleteTask_def stripTasks_def stripArea_def stripProject_def stripPhase_def
      comp_def)

lemma filtered_containers_without:
  "taskId \<notin> t_id ` set (concat (map (filter (\<lambda>t. t_id t \<noteq> taskId)) cs))"
  by (induction cs) auto

text \<open>
  C6. For every document and task id, the document \<open>deleteTask\<close> returns holds no task of
  that id in any container (inbox, area lists, project lists, phase lists); each container
  keeps its other tasks, in their order, and everything that is not a task is unchanged.
\<close>

theorem deleteTask_complete:
  "occurrences taskId (deleteTask taskId d) = 0
   \<and> containers (deleteTask taskId d) = map (filter (\<lambda>t. t_id t \<noteq> taskId)) (containers d)
   \<and> stripTasks (deleteTask taskId d) = stripTasks d"
proof -
  have "taskId \<notin> set (taskIds (deleteTask taskId d))"
    using filtered_containers_without [of taskId "containers d"]
    by (simp add: taskIds_def deleteTask_containers)
  then have "occurrences taskId (deleteTask taskId d) = 0"
    by (auto simp: occurrences_def filter_empty_conv)
  then show ?thesis
    by (simp add: deleteTask_containers deleteTask_strip)
qed

section \<open>Where a created entity is inserted\<close>

lemma addTask_area:
  assumes "aid \<noteq> []" and "find (\<lambda>a. a_id a = aid) (areas d) = Some area"
  shows "find (\<lambda>a. a_id a = aid) (areas (handleAddTask newId stamp title TArea (Some aid) d)) =
         Some (area\<lparr>a_tasks := newTask newId stamp title # a_tasks area\<rparr>)"
  using assms by (simp add: handleAddTask_def unshiftAtTarget_def find_mutateFound)

lemma addTask_project:
  assumes "pid \<noteq> []" and "i < length (areas d)"
    and "find (\<lambda>p. p_id p = pid) (a_projects (areas d ! i)) = Some project"
  shows "find (\<lambda>p. p_id p = pid)
           (a_projects (areas (handleAddTask newId stamp title TProject (Some pid) d) ! i)) =
         Some (project\<lparr>p_tasks := newTask newId stamp title # p_tasks project\<rparr>)"
  using assms by (simp add: handleAddTask_def unshiftAtTarget_def find_mutateFound)

lemma addTask_phase:
  assumes "phid \<noteq> []" and "i < length (areas d)" and "j < length (a_projects (areas d ! i))"
    and "find (\<lambda>ph. ph_id ph = phid) (p_phases (a_projects (areas d ! i) ! j)) = Some phase"
  shows "find (\<lambda>ph. ph_id ph = phid)
           (p_phases (a_projects (areas (handleAddTask newId stamp title TPhase (Some phid) d) ! i) ! j)) =
         Some (phase\<lparr>ph_tasks := newTask newId stamp title # ph_tasks phase\<rparr>)"
  using assms by (simp add: handleAddTask_def unshiftAtTarget_def find_mutateFound)

lemma addProject_front:
  assumes "find (\<lambda>a. a_id a = aid) (areas d) = Some area"
  shows "find (\<lambda>a. a_id a = aid) (areas (handleAddProject newId stamp week title aid d)) =
         Some (area\<lparr>a_projects := newProject newId stamp week title # a_projects area\<rparr>)"
  using assms by (simp add: handleAddProject_def find_mutateFound)

lemma addPhase_end:
  assumes "i < length (areas d)"
    and "find (\<lambda>p. p_id p = pid) (a_projects (areas d ! i)) = Some project"
  shows "find (\<lambda>p. p_id p = pid) (a_projects (areas (handleAddPhase newId title pid d) ! i)) =
         Some (project\<lparr>p_phases := p_phases project @ [newPhase newId title]\<rparr>)"
  using assms by (simp add: handleAddPhase_def find_mutateFound)

text \<open>
  C2 (amended). \<open>addArea\<close> puts the new area at the end of the areas, and \<open>handleAddGroup\<close>
  (with a title that is not blank) the new group at the end of the groups.
  \<open>handleAddTask\<close> puts the new task at the front of the inbox, or at the front of the task
  list of the target it finds (the first area of that id; in an area, the first project of
  that id; in a project, the first phase of that id). \<open>handleAddProject\<close> puts the new
  project at the front of the projects of the first area of that id, and \<open>handleAddPhase\<close>
  the new phase at the end of the phases of the project it finds.
\<close>

theorem creation_positions:
  "areas (addArea newId title icon groupId d) = areas d @ [newArea newId title icon groupId]
   \<and> (trim title \<noteq> [] \<longrightarrow>
        areaGroups (handleAddGroup newId title d) = areaGroups d @ [newGroup newId title])
   \<and> inbox (handleAddTask newId stamp title TInbox target d) = newTask newId stamp title # inbox d
   \<and> (aid \<noteq> [] \<and> find (\<lambda>a. a_id a = aid) (areas d) = Some area \<longrightarrow>
        find (\<lambda>a. a_id a = aid) (areas (handleAddTask newId stamp title TArea (Some aid) d)) =
        Some (area\<lparr>a_tasks := newTask newId stamp title # a_tasks area\<rparr>))
   \<and> (pid \<noteq> [] \<and> i < length (areas d)
        \<and> find (\<lambda>p. p_id p = pid) (a_projects (areas d ! i)) = Some project \<longrightarrow>
        find (\<lambda>p. p_id p = pid)
          (a_projects (areas (handleAddTask newId stamp title TProject (Some pid) d) ! i)) =
        Some (project\<lparr>p_tasks := newTask newId stamp title # p_tasks project\<rparr>))
   \<and> (phid \<noteq> [] \<and> i < length (areas d) \<and> j < length (a_projects (areas d ! i))
        \<and> find (\<lambda>ph. ph_id ph = phid) (p_phases (a_projects (areas d ! i) ! j)) = Some phase \<longrightarrow>
        find (\<lambda>ph. ph_id ph = phid)
          (p_phases (a_projects (areas (handleAddTask newId stamp title TPhase (Some phid) d) ! i) ! j)) =
        Some (phase\<lparr>ph_tasks := newTask newId stamp title # ph_tasks phase\<rparr>))
   \<and> (find (\<lambda>a. a_id a = aid) (areas d) = Some area \<longrightarrow>
        find (\<lambda>a. a_id a = aid) (areas (handleAddProject newId stamp week title aid d)) =
        Some (area\<lparr>a_projects := newProject newId stamp week title # a_projects area\<rparr>))
   \<and> (i < length (areas d)
        \<and> find (\<lambda>p. p_id p = pid) (a_projects (areas d ! i)) = Some project \<longrightarrow>
        find (\<lambda>p. p_id p = pid) (a_projects (areas (handleAddPhase newId title pid d) ! i)) =
        Some (project\<lparr>p_phases := p_phases project @ [newPhase newId title]\<rparr>))"
proof -
  have a: "areas (addArea newId title icon groupId d) = areas d @ [newArea newId title icon groupId]"
    by (simp add: addArea_def)
  have g: "trim title \<noteq> [] \<longrightarrow>
        areaGroups (handleAddGroup newId title d) = areaGroups d @ [newGroup newId title]"
    by (simp add: handleAddGroup_def)
  have t: "inbox (handleAddTask newId stamp title TInbox target d) = newTask newId stamp title # inbox d"
    by (simp add: handleAddTask_def unshiftAtTarget_def)
  from a g t addTask_area [of aid d area newId stamp title]
    addTask_project [of pid i d project newId stamp title]
    addTask_phase [of phid i d j phase newId stamp title]
    addProject_front [of aid d area newId stamp week title]
    addPhase_end [of i d pid project newId title]
  show ?thesis by blast
qed

text \<open>
  On the sample document every target exists, and the new area and the new group come
  last, the new task and the new project first, the new phase last.
\<close>

theorem creation_positions_witness:
  "trim ''Body'' \<noteq> []
   \<and> find (\<lambda>a. a_id a = ''1'') (areas seeded) = Some (areas seeded ! 0)
   \<and> map a_id (areas (addArea ''n1'' ''Body'' ''heart'' None seeded)) = [''1'', ''n1'']
   \<and> map g_id (areaGroups (handleAddGroup ''n1'' ''Body'' seeded)) = [''g1'', ''n1'']
   \<and> map t_id (a_tasks (areas (handleAddTask ''n1'' ''now'' ''Body'' TArea (Some ''1'') seeded) ! 0)) =
       [''n1'']
   \<and> map t_id (p_tasks (a_projects
         (areas (handleAddTask ''n1'' ''now'' ''Body'' TProject (Some ''p1'') seeded) ! 0) ! 0)) = [''n1'']
   \<and> map t_id (ph_tasks (p_phases (a_projects
         (areas (handleAddTask ''n1'' ''now'' ''Body'' TPhase (Some ''ph1'') seeded) ! 0) ! 0) ! 0)) =
       [''n1'']
   \<and> map p_id (a_projects (areas (handleAddProject ''n1'' ''now'' ''later'' ''Body'' ''1'' seeded) ! 0)) =
       [''n1'', ''p1'']
   \<and> map ph_id (p_phases (a_projects (areas (handleAddPhase ''n1'' ''Body'' ''p1'' seeded) ! 0) ! 0)) =
       [''ph1'', ''n1'']"
  using creation_positions [where newId = "''n1''" and title = "''Body''" and icon = "''heart''"
      and groupId = None and d = seeded and stamp = "''now''" and week = "''later''"
      and target = None and aid = "''1''" and area = "areas seeded ! 0" and pid = "''p1''"
      and i = 0 and project = "a_projects (areas seeded ! 0) ! 0" and phid = "''ph1''" and j = 0
      and phase = "p_phases (a_projects (areas seeded ! 0) ! 0) ! 0"]
  by (simp add: seeded_def newArea_def newGroup_def newTask_def newProject_def newPhase_def
      trim_def isWhiteSpace_def addArea_def handleAddGroup_def handleAddTask_def
      unshiftAtTarget_def handleAddProject_def handleAddPhase_def)

text \<open>
  The claim as stated fails: after \<open>addArea\<close> and \<open>handleAddGroup\<close> the element at index 0
  is the old first element, not the new one.
\<close>

theorem creation_front_counterexample:
  "areas (addArea ''2'' ''Health'' ''heart'' None seeded) ! 0 \<noteq> newArea ''2'' ''Health'' ''heart'' None
   \<and> areaGroups (handleAddGroup ''g2'' ''Body'' seeded) ! 0 \<noteq> newGroup ''g2'' ''Body''"
  by (simp add: addArea_def handleAddGroup_def seeded_def newArea_def newGroup_def trim_def
      isWhiteSpace_def)

section \<open>Creating a task and toggling its status\<close>

lemma toggle_containers:
  "containers (toggleTaskStatus taskId d) = map (updateTaskStatus taskId) (containers d)"
  by (simp add: toggleTaskStatus_def containers_def areaContainers_def projectContainers_def
      map_concat comp_def)

lemma toggle_strip: "stripTasks (toggleTaskStatus taskId d) = stripTasks d"
  by (simp add: toggleTaskStatus_def stripTasks_def stripArea_def stripProject_def stripPhase_def
      comp_def)

lemma distinct_each_container:
  "distinct (map g (concat cs)) \<Longrightarrow> c \<in> set cs \<Longrightarrow> distinct (map g c)"
  by (induction cs) auto

lemma toggle_all_tasks:
  assumes "one_location d"
  shows "concat (containers (toggleTaskStatus taskId d)) =
         map (\<lambda>t. if t_id t = taskId
                   then t\<lparr>t_status := (if t_status t = Done then InProgress else Done)\<rparr> else t)
           (concat (containers d))"
proof -
  have each: "updateTaskStatus taskId c =
        map (\<lambda>t. if t_id t = taskId
                  then t\<lparr>t_status := (if t_status t = Done then InProgress else Done)\<rparr> else t) c"
    if "c \<in> set (containers d)" for c
  proof -
    have "distinct (map t_id c)"
      using assms that distinct_each_container [of t_id "containers d" c]
      by (simp add: one_location_def taskIds_def)
    then show ?thesis
      unfolding updateTaskStatus_def by (rule mutateFound_distinct)
  qed
  have "map (updateTaskStatus taskId) (containers d) =
      map (map (\<lambda>t. if t_id t = taskId
                  then t\<lparr>t_status := (if t_status t = Done then InProgress else Done)\<rparr> else t))
        (containers d)"
    by (rule map_cong [OF refl]) (rule each)
  then show ?thesis by (simp only: toggle_containers map_concat)
qed

text \<open>
  C7. From the document with no areas and an empty inbox, \<open>handleAddTask\<close> with title
  "Buy milk" and target inbox gives an inbox of exactly one task, titled "Buy milk", with
  status Backlog, priority P2 and energy Low; \<open>toggleTaskStatus\<close> on its id makes the
  status Done, and a second toggle makes it In Progress. In general \<open>toggleTaskStatus\<close>
  rewrites every container with \<open>updateTaskStatus\<close> and nothing else: in each container the
  first task of that id gets Done replaced by In Progress and any other status by Done,
  and under the one-location invariant that is every task of that id.
\<close>

theorem buy_milk_then_toggle:
  "inbox (handleAddTask newId stamp ''Buy milk'' TInbox None
            \<lparr>areaGroups = [], areas = [], inbox = []\<rparr>) = [newTask newId stamp ''Buy milk'']
   \<and> t_id (newTask newId stamp ''Buy milk'') = newId
   \<and> t_title (newTask newId stamp ''Buy milk'') = ''Buy milk''
   \<and> t_status (newTask newId stamp ''Buy milk'') = Backlog
   \<and> t_priority (newTask newId stamp ''Buy milk'') = P2
   \<and> t_energy (newTask newId stamp ''Buy milk'') = Low
   \<and> map t_status (inbox (toggleTaskStatus newId
        (handleAddTask newId stamp ''Buy milk'' TInbox None
            \<lparr>areaGroups = [], areas = [], inbox = []\<rparr>))) = [Done]
   \<and> map t_status (inbox (toggleTaskStatus newId (toggleTaskStatus newId
        (handleAddTask newId stamp ''Buy milk'' TInbox None
            \<lparr>areaGroups = [], areas = [], inbox = []\<rparr>)))) = [InProgress]
   \<and> containers (toggleTaskStatus taskId d) = map (updateTaskStatus taskId) (containers d)
   \<and> stripTasks (toggleTaskStatus taskId d) = stripTasks d
   \<and> length (updateTaskStatus taskId ts) = length ts
   \<and> (\<forall>i<length ts. updateTaskStatus taskId ts ! i =
        (if t_id (ts ! i) = taskId \<and> (\<forall>j<i. t_id (ts ! j) \<noteq> taskId)
         then (ts ! i)\<lparr>t_status := (if t_status (ts ! i) = Done then InProgress else Done)\<rparr>
         else ts ! i))
   \<and> (one_location d \<longrightarrow>
        concat (containers (toggleTaskStatus taskId d)) =
        map (\<lambda>t. if t_id t = taskId
                  then t\<lparr>t_status := (if t_status t = Done then InProgress else Done)\<rparr> else t)
          (concat (containers d)))"
proof -
  have scenario: "inbox (handleAddTask newId stamp ''Buy milk'' TInbox None
            \<lparr>areaGroups = [], areas = [], inbox = []\<rparr>) = [newTask newId stamp ''Buy milk'']"
    by (simp add: handleAddTask_def unshiftAtTarget_def)
  have fields: "t_id (newTask newId stamp ''Buy milk'') = newId"
    "t_title (newTask newId stamp ''Buy milk'') = ''Buy milk''"
    "t_status (newTask newId stamp ''Buy milk'') = Backlog"
    "t_priority (newTask newId stamp ''Buy milk'') = P2"
    "t_energy (newTask newId stamp ''Buy milk'') = Low"
    by (simp_all add: newTask_def)
  have once: "map t_status (inbox (toggleTaskStatus newId
        (handleAddTask newId stamp ''Buy milk'' TInbox None
            \<lparr>areaGroups = [], areas = [], inbox = []\<rparr>))) = [Done]"
    by (simp add: toggleTaskStatus_def updateTaskStatus_def scenario fields)
  have twice: "map t_status (inbox (toggleTaskStatus newId (toggleTaskStatus newId
        (handleAddTask newId stamp ''Buy milk'' TInbox None
            \<lparr>areaGroups = [], areas = [], inbox = []\<rparr>)))) = [InProgress]"
    by (simp add: toggleTaskStatus_def updateTaskStatus_def scenario fields)
  have nth: "\<forall>i<length ts. updateTaskStatus taskId ts ! i =
        (if t_id (ts ! i) = taskId \<and> (\<forall>j<i. t_id (ts ! j) \<noteq> taskId)
         then (ts ! i)\<lparr>t_status := (if t_status (ts ! i) = Done then InProgress else Done)\<rparr>
         else ts ! i)"
    by (simp add: updateTaskStatus_def nth_mutateFound)
  have all: "one_location d \<longrightarrow>
        concat (containers (toggleTaskStatus taskId d)) =
        map (\<lambda>t. if t_id t = taskId
                  then t\<lparr>t_status := (if t_status t = Done then InProgress else Done)\<rparr> else t)
          (concat (containers d))"
    using toggle_all_tasks [of d taskId] by blast
  have len: "length (updateTaskStatus taskId ts) = length ts"
    by (simp add: updateTaskStatus_def length_mutateFound)
  from scenario fields once twice toggle_containers [of taskId d] toggle_strip [of taskId d]
    len nth all
  show ?thesis by blast
qed

theorem buy_milk_then_toggle_witness:
  "one_location sample
   \<and> map t_status (concat (containers sample)) = [Backlog, Backlog, Done, Backlog]
   \<and> map t_status (concat (containers (toggleTaskStatus ''t3'' sample))) =
       [Backlog, Backlog, InProgress, Backlog]
   \<and> map t_status (concat (containers (toggleTaskStatus ''t4'' sample))) =
       [Backlog, Backlog, Done, Done]
   \<and> map t_status (updateTaskStatus ''t1'' (inbox sample @ inbox sample)) = [Done, Backlog]"
  using buy_milk_then_toggle [where d = sample and taskId = "''t3''"]
    buy_milk_then_toggle [where d = sample and taskId = "''t4''"]
    buy_milk_then_toggle [where ts = "inbox sample @ inbox sample" and taskId = "''t1''"]
  by (simp add: sample_def one_location_def taskIds_def containers_def areaContainers_def
      projectContainers_def newArea_def newProject_def newPhase_def newTask_def
      updateTaskStatus_def)

section \<open>Attaching a file to a task\<close>

lemma mset_projects_split:
  "mset (concat (concat (map projectContainers ps))) =
   mset (concat (map p_tasks ps)) + mset (concat (map (\<lambda>p. concat (map ph_tasks (p_phases p))) ps))"
  by (induction ps) (simp_all add: projectContainers_def)

lemma mset_areas_split:
  "mset (concat (concat (map areaContainers as))) =
   mset (concat (map (\<lambda>area. a_tasks area @ concat (map p_tasks (a_projects area))) as))
   + mset (concat (map (\<lambda>area. concat (map (\<lambda>project. concat (map ph_tasks (p_phases project)))
       (a_projects area))) as))"
  by (induction as) (simp_all add: areaContainers_def mset_projects_split)

lemma mset_containers_split:
  "mset (concat (containers d)) = mset (inbox d) + mset (directTasks d) + mset (phaseTasks d)"
  by (simp add: containers_def directTasks_def phaseTasks_def mset_areas_split)

lemma length_filter_count: "length (filter (\<lambda>i. i = x) xs) = count (mset xs) x"
  by (induction xs) simp_all

lemma occurrences_count: "occurrences taskId d = count (mset (taskIds d)) taskId"
  by (simp add: occurrences_def length_filter_count)

text \<open>An id that occurs once, in a direct list, is in no other kind of container.\<close>

lemma direct_excludes_others:
  assumes "occurrences taskId d = 1" and "taskId \<in> t_id ` set (directTasks d)"
  shows "taskId \<notin> t_id ` set (inbox d) \<and> taskId \<notin> t_id ` set (phaseTasks d)"
proof -
  let ?c = "\<lambda>ts. count (mset (map t_id ts)) taskId"
  have "mset (taskIds d) =
        mset (map t_id (inbox d)) + mset (map t_id (directTasks d)) + mset (map t_id (phaseTasks d))"
    unfolding taskIds_def mset_map mset_containers_split by simp
  then have total: "count (mset (taskIds d)) taskId =
      ?c (inbox d) + ?c (directTasks d) + ?c (phaseTasks d)"
    by simp
  have le: "count (mset (taskIds d)) taskId \<le> 1"
    using assms(1) by (simp add: occurrences_count)
  have "taskId \<in> set (map t_id (directTasks d))"
    using assms(2) by simp
  then have ge: "1 \<le> ?c (directTasks d)"
    by (metis count_greater_eq_one_iff set_mset_mset)
  from total le ge have "?c (inbox d) = 0 \<and> ?c (phaseTasks d) = 0"
    by linarith
  then have "taskId \<notin> set (map t_id (inbox d)) \<and> taskId \<notin> set (map t_id (phaseTasks d))"
    by (metis count_eq_zero_iff set_mset_mset)
  then show ?thesis by simp
qed

text \<open>The upload searches the inbox and the phases: an id in neither changes nothing.\<close>

lemma upload_unsearched:
  assumes "taskId \<notin> t_id ` set (inbox d)" and "taskId \<notin> t_id ` set (phaseTasks d)"
  shows "handleFileUpload attachment taskId UTask d = d"
proof -
  let ?u = "mutateFound (\<lambda>t. t_id t = taskId)
            (\<lambda>task. task\<lparr>t_attachments := pushAttachment attachment (t_attachments task)\<rparr>)"
  have inb: "?u (inbox d) = inbox d"
    using assms(1) by (intro mutateFound_none) auto
  have ph: "?u (ph_tasks phase) = ph_tasks phase"
    if "area \<in> set (areas d)" "project \<in> set (a_projects area)" "phase \<in> set (p_phases project)"
    for area project phase
  proof -
    have "set (ph_tasks phase) \<subseteq> set (phaseTasks d)"
      using that by (auto simp: phaseTasks_def)
    with assms(2) show ?thesis by (intro mutateFound_none) auto
  qed
  have "map (\<lambda>area. area\<lparr>a_projects := map (\<lambda>project.
                   project\<lparr>p_phases := map (\<lambda>phase.
                     phase\<lparr>ph_tasks := ?u (ph_tasks phase)\<rparr>) (p_phases project)\<rparr>)
                   (a_projects area)\<rparr>) (areas d) = areas d"
    by (intro map_idI) (simp add: ph map_idI)
  then show ?thesis
    by (simp add: handleFileUpload_def inb)
qed

text \<open>
  C9. \<open>handleFileUpload\<close> with type task rewrites the inbox and the task lists of the
  phases only. For every document in which the target task id resides in the direct task
  list of an area or of a project (it occurs once in the document, as the one-location
  invariant of the data model has it, and that occurrence is in a direct list), the
  document returned is the document given: the attachment is not added.
\<close>

theorem upload_skips_direct_tasks:
  assumes "occurrences taskId d = 1" and "taskId \<in> t_id ` set (directTasks d)"
  shows "handleFileUpload attachment taskId UTask d = d"
  using direct_excludes_others [OF assms] by (simp add: upload_unsearched)

text \<open>
  On the sample document the tasks \<open>t2\<close> (of an area) and \<open>t3\<close> (of a project) get no
  attachment, while \<open>t1\<close> (inbox) and \<open>t4\<close> (of a phase) do.
\<close>

theorem upload_skips_direct_tasks_witness:
  "one_location sample
   \<and> occurrences ''t2'' sample = 1 \<and> occurrences ''t3'' sample = 1
   \<and> map t_id (directTasks sample) = [''t2'', ''t3'']
   \<and> handleFileUpload receipt ''t2'' UTask sample = sample
   \<and> handleFileUpload receipt ''t3'' UTask sample = sample
   \<and> map t_attachments (inbox (handleFileUpload receipt ''t1'' UTask sample)) = [Some [receipt]]
   \<and> map t_attachments (phaseTasks (handleFileUpload receipt ''t4'' UTask sample)) =
       [Some [receipt]]"
  using upload_skips_direct_tasks [where d = sample and taskId = "''t2''" and attachment = receipt]
    upload_skips_direct_tasks [where d = sample and taskId = "''t3''" and attachment = receipt]
  by (simp add: sample_def one_location_def occurrences_def taskIds_def containers_def
      areaContainers_def projectContainers_def directTasks_def phaseTasks_def newArea_def
      newProject_def newPhase_def newTask_def handleFileUpload_def pushAttachment_def)

section \<open>Moving a task\<close>

text \<open>
  C1. The claim asks that \<open>moveTask\<close> keep the moved task in exactly one container for
  every target, a target that matches nothing included. On the document below the task
  \<open>t1\<close> is in the inbox and nowhere else; moved to an area \<open>7\<close> that does not exist, it is
  in no container of the result.
\<close>

theorem moveTask_missing_target_loses_task:
  "one_location \<lparr>areaGroups = [], areas = [newArea ''1'' ''Work'' ''briefcase'' None],
                 inbox = [newTask ''t1'' ''2024-01-01T00:00:00.000Z'' ''Buy milk'']\<rparr>
   \<and> occurrences ''t1'' \<lparr>areaGroups = [], areas = [newArea ''1'' ''Work'' ''briefcase'' None],
                 inbox = [newTask ''t1'' ''2024-01-01T00:00:00.000Z'' ''Buy milk'']\<rparr> = 1
   \<and> occurrences ''t1'' (moveTask ''t1'' TArea (Some ''7'')
        \<lparr>areaGroups = [], areas = [newArea ''1'' ''Work'' ''briefcase'' None],
         inbox = [newTask ''t1'' ''2024-01-01T00:00:00.000Z'' ''Buy milk'']\<rparr>) = 0"
  by (simp add: one_location_def occurrences_def taskIds_def containers_def areaContainers_def
      projectContainers_def moveTask_def unshiftAtTarget_def newTask_def newArea_def)

lemma find_id_None: "find (\<lambda>t. t_id t = k) c = None \<longleftrightarrow> k \<notin> t_id ` set c"
  by (induction c) auto

lemma find_id_Some: "find (\<lambda>t. t_id t = k) c = Some t \<Longrightarrow> t_id t = k"
  by (induction c) (auto split: if_splits)

lemma removeFromList_found: "snd (removeFromList taskId ts) = find (\<lambda>t. t_id t = taskId) ts"
  by (induction ts) (auto split: prod.splits)

lemma removeFromList_distinct:
  "distinct (map t_id ts) \<Longrightarrow> fst (removeFromList taskId ts) = filter (\<lambda>t. t_id t \<noteq> taskId) ts"
proof (induction ts)
  case Nil
  show ?case by simp
next
  case (Cons t ts)
  show ?case
  proof (cases "t_id t = taskId")
    case True
    with Cons.prems have "\<forall>x\<in>set ts. t_id x \<noteq> taskId" by (force simp: image_iff)
    then have "filter (\<lambda>t. t_id t \<noteq> taskId) ts = ts" by simp
    with True show ?thesis by simp
  next
    case False
    with Cons show ?thesis by (auto split: prod.splits)
  qed
qed

lemma removeFromPhases_eq:
  "removeFromPhases taskId phases moved =
     (map (\<lambda>phase. phase\<lparr>ph_tasks := fst (removeFromList taskId (ph_tasks phase))\<rparr>) phases,
      foundIn taskId (map ph_tasks phases) moved)"
proof (induction phases arbitrary: moved)
  case Nil
  show ?case by (simp add: foundIn_def)
next
  case (Cons phase phases)
  obtain ts found where r: "removeFromList taskId (ph_tasks phase) = (ts, found)"
    by (cases "removeFromList taskId (ph_tasks phase)")
  have f: "found = find (\<lambda>t. t_id t = taskId) (ph_tasks phase)"
    using removeFromList_found [of taskId "ph_tasks phase"] by (simp add: r)
  show ?case
    using Cons.IH [of "assign found moved"] by (simp add: r f foundIn_def)
qed

lemma removeFromProjects_eq:
  "removeFromProjects taskId projects moved =
     (map (\<lambda>project. project\<lparr>p_tasks := fst (removeFromList taskId (p_tasks project)),
             p_phases := map (\<lambda>phase. phase\<lparr>ph_tasks := fst (removeFromList taskId (ph_tasks phase))\<rparr>)
                           (p_phases project)\<rparr>) projects,
      foundIn taskId (concat (map projectContainers projects)) moved)"
proof (induction projects arbitrary: moved)
  case Nil
  show ?case by (simp add: foundIn_def)
next
  case (Cons project projects)
  obtain ts found where r: "removeFromList taskId (p_tasks project) = (ts, found)"
    by (cases "removeFromList taskId (p_tasks project)")
  have f: "found = find (\<lambda>t. t_id t = taskId) (p_tasks project)"
    using removeFromList_found [of taskId "p_tasks project"] by (simp add: r)
  show ?case
    using Cons.IH [of "foundIn taskId (map ph_tasks (p_phases project)) (assign found moved)"]
    by (simp add: r f removeFromPhases_eq foundIn_def projectContainers_def)
qed

lemma removeFromAreas_eq:
  "removeFromAreas taskId as moved =
     (map (\<lambda>area. area\<lparr>a_tasks := fst (removeFromList taskId (a_tasks area)),
        a_projects := map (\<lambda>project. project\<lparr>p_tasks := fst (removeFromList taskId (p_tasks project)),
             p_phases := map (\<lambda>phase. phase\<lparr>ph_tasks := fst (removeFromList taskId (ph_tasks phase))\<rparr>)
                           (p_phases project)\<rparr>) (a_projects area)\<rparr>) as,
      foundIn taskId (concat (map areaContainers as)) moved)"
proof (induction as arbitrary: moved)
  case Nil
  show ?case by (simp add: foundIn_def)
next
  case (Cons area as)
  obtain ts found where r: "removeFromList taskId (a_tasks area) = (ts, found)"
    by (cases "removeFromList taskId (a_tasks area)")
  have f: "found = find (\<lambda>t. t_id t = taskId) (a_tasks area)"
    using removeFromList_found [of taskId "a_tasks area"] by (simp add: r)
  show ?case
    using Cons.IH [of "foundIn taskId (concat (map projectContainers (a_projects area))) (assign found moved)"]
    by (simp add: r f removeFromProjects_eq foundIn_def areaContainers_def)
qed

lemma foundIn_None:
  "foundIn taskId cs moved = None \<longleftrightarrow> moved = None \<and> taskId \<notin> t_id ` set (concat cs)"
proof (induction cs arbitrary: moved)
  case Nil
  show ?case by (simp add: foundIn_def)
next
  case (Cons c cs)
  have "assign (find (\<lambda>t. t_id t = taskId) c) moved = None \<longleftrightarrow>
        moved = None \<and> taskId \<notin> t_id ` set c"
    using find_id_None [of taskId c] by (cases "find (\<lambda>t. t_id t = taskId) c") auto
  then show ?case
    using Cons.IH [of "assign (find (\<lambda>t. t_id t = taskId) c) moved"]
    by (auto simp: foundIn_def)
qed

lemma foundIn_id:
  "(\<forall>t. moved = Some t \<longrightarrow> t_id t = taskId) \<Longrightarrow> foundIn taskId cs moved = Some t \<Longrightarrow> t_id t = taskId"
proof (induction cs arbitrary: moved)
  case Nil
  then show ?case by (simp add: foundIn_def)
next
  case (Cons c cs)
  have step: "\<forall>t. assign (find (\<lambda>t. t_id t = taskId) c) moved = Some t \<longrightarrow> t_id t = taskId"
    using Cons.prems(1)
    by (cases "find (\<lambda>t. t_id t = taskId) c") (auto dest: find_id_Some)
  from Cons.prems(2)
  have "foundIn taskId cs (assign (find (\<lambda>t. t_id t = taskId) c) moved) = Some t"
    by (simp add: foundIn_def)
  with step show ?case by (rule Cons.IH)
qed

lemma moveTask_eq:
  "moveTask taskId targetType targetId d =
     (case foundIn taskId (containers d) None of
        None \<Rightarrow> d
      | Some task \<Rightarrow>
          unshiftAtTarget task targetType targetId
            (d\<lparr>inbox := fst (removeFromList taskId (inbox d)),
               areas := fst (removeFromAreas taskId (areas d) None)\<rparr>))"
proof -
  obtain ts found where r: "removeFromList taskId (inbox d) = (ts, found)"
    by (cases "removeFromList taskId (inbox d)")
  have f: "found = find (\<lambda>t. t_id t = taskId) (inbox d)"
    using removeFromList_found [of taskId "inbox d"] by (simp add: r)
  obtain areas' moved where ra: "removeFromAreas taskId (areas d) (assign found None) = (areas', moved)"
    by (cases "removeFromAreas taskId (areas d) (assign found None)")
  have areas': "fst (removeFromAreas taskId (areas d) None) = areas'"
    using ra by (simp add: removeFromAreas_eq)
  have moved: "foundIn taskId (containers d) None = moved"
    using ra by (simp add: removeFromAreas_eq containers_def foundIn_def f)
  have "moveTask taskId targetType targetId d =
        (case moved of None \<Rightarrow> d
         | Some task \<Rightarrow> unshiftAtTarget task targetType targetId (d\<lparr>inbox := ts, areas := areas'\<rparr>))"
    by (simp add: moveTask_def r ra)
  moreover have "fst (removeFromList taskId (inbox d)) = ts"
    by (simp add: r)
  ultimately show ?thesis
    unfolding moved areas' by (cases moved) simp_all
qed

text \<open>When no container holds a task of that id, the document stays.\<close>

lemma moveTask_absent:
  assumes "taskId \<notin> set (taskIds d)"
  shows "moveTask taskId targetType targetId d = d"
proof -
  have "foundIn taskId (containers d) None = None"
    using assms by (simp add: foundIn_None taskIds_def)
  then show ?thesis by (simp add: moveTask_eq)
qed

lemma phases_delete:
  assumes "\<forall>c \<in> set (map ph_tasks phases). distinct (map t_id c)"
  shows "map (\<lambda>phase. phase\<lparr>ph_tasks := fst (removeFromList taskId (ph_tasks phase))\<rparr>) phases =
         map (\<lambda>phase. phase\<lparr>ph_tasks := filter (\<lambda>t. t_id t \<noteq> taskId) (ph_tasks phase)\<rparr>) phases"
proof (rule map_cong [OF refl])
  fix phase assume "phase \<in> set phases"
  with assms have "distinct (map t_id (ph_tasks phase))" by simp
  then show "phase\<lparr>ph_tasks := fst (removeFromList taskId (ph_tasks phase))\<rparr> =
             phase\<lparr>ph_tasks := filter (\<lambda>t. t_id t \<noteq> taskId) (ph_tasks phase)\<rparr>"
    by (simp add: removeFromList_distinct)
qed

lemma projects_delete:
  assumes "\<forall>c \<in> set (concat (map projectContainers projects)). distinct (map t_id c)"
  shows "map (\<lambda>project. project\<lparr>p_tasks := fst (removeFromList taskId (p_tasks project)),
             p_phases := map (\<lambda>phase. phase\<lparr>ph_tasks := fst (removeFromList taskId (ph_tasks phase))\<rparr>)
                           (p_phases project)\<rparr>) projects =
         map (\<lambda>project. project\<lparr>p_tasks := filter (\<lambda>t. t_id t \<noteq> taskId) (p_tasks project),
             p_phases := map (\<lambda>phase. phase\<lparr>ph_tasks := filter (\<lambda>t. t_id t \<noteq> taskId) (ph_tasks phase)\<rparr>)
                           (p_phases project)\<rparr>) projects"
proof (rule map_cong [OF refl])
  fix project assume p: "project \<in> set projects"
  with assms have all: "\<forall>c \<in> set (projectContainers project). distinct (map t_id c)"
    by simp
  then have "distinct (map t_id (p_tasks project))"
    by (simp add: projectContainers_def)
  then have e: "fst (removeFromList taskId (p_tasks project)) =
      filter (\<lambda>t. t_id t \<noteq> taskId) (p_tasks project)"
    by (rule removeFromList_distinct)
  from all have "\<forall>c \<in> set (map ph_tasks (p_phases project)). distinct (map t_id c)"
    by (simp add: projectContainers_def)
  note e2 = phases_delete [OF this, of taskId]
  show "project\<lparr>p_tasks := fst (removeFromList taskId (p_tasks project)),
             p_phases := map (\<lambda>phase. phase\<lparr>ph_tasks := fst (removeFromList taskId (ph_tasks phase))\<rparr>)
                           (p_phases project)\<rparr> =
        project\<lparr>p_tasks := filter (\<lambda>t. t_id t \<noteq> taskId) (p_tasks project),
             p_phases := map (\<lambda>phase. phase\<lparr>ph_tasks := filter (\<lambda>t. t_id t \<noteq> taskId) (ph_tasks phase)\<rparr>)
                           (p_phases project)\<rparr>"
    unfolding e e2 by (rule refl)
qed

lemma areas_delete:
  assumes "\<forall>c \<in> set (concat (map areaContainers as)). distinct (map t_id c)"
  shows "map (\<lambda>area. area\<lparr>a_tasks := fst (removeFromList taskId (a_tasks area)),
        a_projects := map (\<lambda>project. project\<lparr>p_tasks := fst (removeFromList taskId (p_tasks project)),
             p_phases := map (\<lambda>phase. phase\<lparr>ph_tasks := fst (removeFromList taskId (ph_tasks phase))\<rparr>)
                           (p_phases project)\<rparr>) (a_projects area)\<rparr>) as =
      map (\<lambda>area. area\<lparr>a_tasks := filter (\<lambda>t. t_id t \<noteq> taskId) (a_tasks area),
        a_projects := map (\<lambda>project. project\<lparr>p_tasks := filter (\<lambda>t. t_id t \<noteq> taskId) (p_tasks project),
             p_phases := map (\<lambda>phase. phase\<lparr>ph_tasks := filter (\<lambda>t. t_id t \<noteq> taskId) (ph_tasks phase)\<rparr>)
                           (p_phases project)\<rparr>) (a_projects area)\<rparr>) as"
proof (rule map_cong [OF refl])
  fix area assume a: "area \<in> set as"
  with assms have all: "\<forall>c \<in> set (areaContainers area). distinct (map t_id c)"
    by simp
  then have "distinct (map t_id (a_tasks area))"
    by (simp add: areaContainers_def)
  then have e: "fst (removeFromList taskId (a_tasks area)) =
      filter (\<lambda>t. t_id t \<noteq> taskId) (a_tasks area)"
    by (rule removeFromList_distinct)
  from all have "\<forall>c \<in> set (concat (map projectContainers (a_projects area))). distinct (map t_id c)"
    by (simp add: areaContainers_def)
  note e2 = projects_delete [OF this, of taskId]
  show "area\<lparr>a_tasks := fst (removeFromList taskId (a_tasks area)),
        a_projects := map (\<lambda>project. project\<lparr>p_tasks := fst (removeFromList taskId (p_tasks project)),
             p_phases := map (\<lambda>phase. phase\<lparr>ph_tasks := fst (removeFromList taskId (ph_tasks phase))\<rparr>)
                           (p_phases project)\<rparr>) (a_projects area)\<rparr> =
      area\<lparr>a_tasks := filter (\<lambda>t. t_id t \<noteq> taskId) (a_tasks area),
        a_projects := map (\<lambda>project. project\<lparr>p_tasks := filter (\<lambda>t. t_id t \<noteq> taskId) (p_tasks project),
             p_phases := map (\<lambda>phase. phase\<lparr>ph_tasks := filter (\<lambda>t. t_id t \<noteq> taskId) (ph_tasks phase)\<rparr>)
                           (p_phases project)\<rparr>) (a_projects area)\<rparr>"
    unfolding e e2 by (rule refl)
qed

text \<open>Under the invariant the removal walk leaves what \<open>deleteTask\<close> leaves.\<close>

lemma removal_is_delete:
  assumes "one_location d"
  shows "d\<lparr>inbox := fst (removeFromList taskId (inbox d)),
           areas := fst (removeFromAreas taskId (areas d) None)\<rparr> = deleteTask taskId d"
proof -
  have each: "\<forall>c \<in> set (containers d). distinct (map t_id c)"
    using assms distinct_each_container [of t_id "containers d"]
    by (simp add: one_location_def taskIds_def)
  then have "distinct (map t_id (inbox d))"
    by (simp add: containers_def)
  then have inb: "fst (removeFromList taskId (inbox d)) = filter (\<lambda>t. t_id t \<noteq> taskId) (inbox d)"
    by (rule removeFromList_distinct)
  from each have "\<forall>c \<in> set (concat (map areaContainers (areas d))). distinct (map t_id c)"
    by (simp add: containers_def)
  note ar = areas_delete [OF this, of taskId]
  have "fst (removeFromAreas taskId (areas d) None) = areas (deleteTask taskId d)"
    unfolding removeFromAreas_eq fst_conv ar by (simp add: deleteTask_def)
  then show ?thesis
    unfolding inb by (simp add: deleteTask_def)
qed

text \<open>Moved to the inbox, the task is in exactly one container and the invariant holds.\<close>

lemma moveTask_to_inbox:
  assumes "one_location d" and "taskId \<in> set (taskIds d)"
  shows "one_location (moveTask taskId TInbox targetId d)
       \<and> occurrences taskId (moveTask taskId TInbox targetId d) = 1"
proof -
  from assms(2) obtain task where found: "foundIn taskId (containers d) None = Some task"
    using foundIn_None [of taskId "containers d" None] by (auto simp: taskIds_def)
  then have tid: "t_id task = taskId"
    using foundIn_id [of None taskId "containers d" task] by simp
  have mv: "moveTask taskId TInbox targetId d =
        (deleteTask taskId d)\<lparr>inbox := task # inbox (deleteTask taskId d)\<rparr>"
    by (simp add: moveTask_eq found removal_is_delete [OF assms(1)] unshiftAtTarget_def)
  have ids: "taskIds (moveTask taskId TInbox targetId d) =
             taskId # filter (\<lambda>i. i \<noteq> taskId) (taskIds d)"
    unfolding mv taskIds_def
    using deleteTask_containers [of taskId d]
    by (simp add: containers_def tid filter_map comp_def filter_concat)
  show ?thesis
    using assms(1) by (simp add: one_location_def occurrences_def ids)
qed

text \<open>
  The sibling \<open>moveProject\<close> commits nothing when the target area is missing.
\<close>

lemma spliceFromAreas_ids:
  "map a_id (fst (spliceFromAreas projectId as moved)) = map a_id as"
proof (induction as arbitrary: moved)
  case Nil
  show ?case by simp
next
  case (Cons a as)
  obtain ps found where p: "spliceProject projectId (a_projects a) = (ps, found)"
    by (cases "spliceProject projectId (a_projects a)")
  obtain rest' moved' where r: "spliceFromAreas projectId as (assign found moved) = (rest', moved')"
    by (cases "spliceFromAreas projectId as (assign found moved)")
  from Cons.IH [of "assign found moved"] r have "map a_id rest' = map a_id as"
    by simp
  then show ?case by (simp add: p r)
qed

lemma moveProject_missing_target:
  assumes "targetAreaId \<notin> a_id ` set (areas d)"
  shows "moveProject projectId targetAreaId d = d"
proof -
  obtain areas' moved where sp: "spliceFromAreas projectId (areas d) None = (areas', moved)"
    by (cases "spliceFromAreas projectId (areas d) None")
  have "map a_id areas' = map a_id (areas d)"
    using spliceFromAreas_ids [of projectId "areas d" None] by (simp add: sp)
  then have "a_id ` set areas' = a_id ` set (areas d)"
    by (metis set_map)
  with assms have "find (\<lambda>a. a_id a = targetAreaId) areas' = None"
    by (auto simp: find_None_iff)
  then show ?thesis
    by (simp add: moveProject_def sp split: option.split)
qed

section \<open>The normalizer is idempotent\<close>

lemma orElse_idem: "orElse (Some (orElse x d)) d = orElse x d"
  by (cases x) auto

lemma mapE_fixed:
  assumes "\<And>x y. f x = Inr y \<Longrightarrow> f y = Inr y"
  shows "mapE f xs = Inr ys \<Longrightarrow> mapE f ys = Inr ys"
proof (induction xs arbitrary: ys)
  case Nil then show ?case by simp
next
  case (Cons x xs)
  from Cons.prems obtain y ys' where y: "f x = Inr y" and ys': "mapE f xs = Inr ys'"
    and eq: "ys = y # ys'"
    by (auto split: sum.splits)
  from assms [OF y] Cons.IH [OF ys'] eq show ?case by simp
qed

lemma mapOrEmpty_fixed:
  assumes "\<And>x y. f x = Inr y \<Longrightarrow> f y = Inr y" and "mapOrEmpty x f = Inr v"
  shows "mapOrEmpty (Some v) f = Inr v"
proof -
  from assms(2) obtain xs ys where "mapE f xs = Inr ys" and v: "v = JArr ys"
    by (auto simp: mapOrEmpty_def split: json.splits sum.splits)
  then have "mapE f ys = Inr ys" using mapE_fixed [of f] assms(1) by blast
  then show ?thesis by (simp add: mapOrEmpty_def v)
qed

lemma map_of_withProps:
  "map_of (withProps obj kvs) = map_of obj ++ map_of (rev kvs)"
proof (induction kvs arbitrary: obj)
  case Nil then show ?case by (simp add: withProps_def)
next
  case (Cons kv kvs)
  obtain k v where kv: "kv = (k, v)" by (cases kv)
  have "withProps obj (kv # kvs) = withProps (AList.update k v obj) kvs"
    by (simp add: withProps_def kv)
  then have "map_of (withProps obj (kv # kvs)) = map_of (AList.update k v obj) ++ map_of (rev kvs)"
    by (simp only: Cons.IH)
  also have "\<dots> = map_of obj ++ map_of (rev (kv # kvs))"
    by (rule ext) (simp add: kv map_add_def update_conv split: option.split)
  finally show ?case .
qed

lemma withProps_same:
  "(\<And>k v. (k, v) \<in> set kvs \<Longrightarrow> map_of obj k = Some v) \<Longrightarrow> withProps obj kvs = obj"
proof (induction kvs)
  case Nil then show ?case by (simp add: withProps_def)
next
  case (Cons kv kvs)
  obtain k v where kv: "kv = (k, v)" by (cases kv)
  have "AList.update k v obj = obj"
    using Cons.prems [of k v] by (simp add: kv update_triv)
  then have "withProps obj (kv # kvs) = withProps obj kvs"
    by (simp add: withProps_def kv)
  with Cons show ?case by simp
qed

lemma withProps_twice:
  assumes "distinct (map fst kvs)"
  shows "withProps (withProps obj kvs) kvs = withProps obj kvs"
proof (rule withProps_same)
  fix k v assume "(k, v) \<in> set kvs"
  then have "map_of (rev kvs) k = Some v"
    using assms by (simp add: distinct_rev rev_map [symmetric])
  then show "map_of (withProps obj kvs) k = Some v"
    by (simp add: map_of_withProps)
qed

lemma getProp_withProps:
  "distinct (map fst kvs) \<Longrightarrow> (k, v) \<in> set kvs \<Longrightarrow> getProp (JObj (withProps obj kvs)) k = Some v"
  by (simp add: map_of_withProps distinct_rev rev_map [symmetric])

lemma normalizeTask_fixed:
  assumes "normalizeTask t = Inr t'"
  shows "normalizeTask t' = Inr t'"
proof -
  define kvs where "kvs =
        [(''description'', orElse (getProp t ''description'') (JStr [])),
         (''labels'', orElse (getProp t ''labels'') (JArr [])),
         (''attachments'', orElse (getProp t ''attachments'') (JArr [])),
         (''contextTags'', orElse (getProp t ''contextTags'') (JArr []))]"
  have dist: "distinct (map fst kvs)" by (simp add: kvs_def)
  from assms have t': "t' = JObj (withProps (spread t) kvs)"
    by (simp add: normalizeTask_def kvs_def split: if_splits)
  have g: "getProp t' ''description'' = Some (orElse (getProp t ''description'') (JStr []))"
    "getProp t' ''labels'' = Some (orElse (getProp t ''labels'') (JArr []))"
    "getProp t' ''attachments'' = Some (orElse (getProp t ''attachments'') (JArr []))"
    "getProp t' ''contextTags'' = Some (orElse (getProp t ''contextTags'') (JArr []))"
    unfolding t' by (rule getProp_withProps [OF dist], simp add: kvs_def)+
  have "normalizeTask t' = Inr (JObj (withProps (spread t') kvs))"
    unfolding normalizeTask_def g orElse_idem kvs_def by (simp add: t')
  also have "spread t' = withProps (spread t) kvs" by (simp add: t')
  finally show ?thesis using withProps_twice [OF dist] t' by simp
qed

lemma normalizePhase_fixed:
  assumes "normalizePhase phase = Inr phase'"
  shows "normalizePhase phase' = Inr phase'"
proof -
  from assms obtain tasks where tasks: "mapOrEmpty (getProp phase ''tasks'') normalizeTask = Inr tasks"
    and ne: "phase \<noteq> JNull"
    by (auto simp: normalizePhase_def split: if_splits sum.splits)
  define kvs where "kvs =
          [(''status'', orElse (getProp phase ''status'') (JStr ''Backlog'')),
           (''labels'', orElse (getProp phase ''labels'') (JArr [])),
           (''attachments'', orElse (getProp phase ''attachments'') (JArr [])),
           (''tasks'', tasks)]"
  have dist: "distinct (map fst kvs)" by (simp add: kvs_def)
  from assms have p': "phase' = JObj (withProps (spread phase) kvs)"
    by (simp add: normalizePhase_def kvs_def tasks ne)
  have g: "getProp phase' ''status'' = Some (orElse (getProp phase ''status'') (JStr ''Backlog''))"
    "getProp phase' ''labels'' = Some (orElse (getProp phase ''labels'') (JArr []))"
    "getProp phase' ''attachments'' = Some (orElse (getProp phase ''attachments'') (JArr []))"
    "getProp phase' ''tasks'' = Some tasks"
    unfolding p' by (rule getProp_withProps [OF dist], simp add: kvs_def)+
  have again: "mapOrEmpty (Some tasks) normalizeTask = Inr tasks"
    using mapOrEmpty_fixed [OF normalizeTask_fixed tasks] .
  have "normalizePhase phase' = Inr (JObj (withProps (spread phase') kvs))"
    unfolding normalizePhase_def g orElse_idem again kvs_def by (simp add: p')
  also have "spread phase' = withProps (spread phase) kvs" by (simp add: p')
  finally show ?thesis using withProps_twice [OF dist] p' by simp
qed

lemma normalizeProject_fixed:
  assumes "normalizeProject project = Inr project'"
  shows "normalizeProject project' = Inr project'"
proof -
  from assms obtain tasks phases
    where tasks: "mapOrEmpty (getProp project ''tasks'') normalizeTask = Inr tasks"
      and phases: "mapOrEmpty (getProp project ''phases'') normalizePhase = Inr phases"
      and ne: "project \<noteq> JNull"
    by (auto simp: normalizeProject_def split: if_splits sum.splits)
  define kvs where "kvs =
              [(''status'', orElse (getProp project ''status'') (JStr ''Backlog'')),
               (''labels'', orElse (getProp project ''labels'') (JArr [])),
               (''attachments'', orElse (getProp project ''attachments'') (JArr [])),
               (''tasks'', tasks),
               (''phases'', phases)]"
  have dist: "distinct (map fst kvs)" by (simp add: kvs_def)
  from assms have p': "project' = JObj (withProps (spread project) kvs)"
    by (simp add: normalizeProject_def kvs_def tasks phases ne)
  have g: "getProp project' ''status'' = Some (orElse (getProp project ''status'') (JStr ''Backlog''))"
    "getProp project' ''labels'' = Some (orElse (getProp project ''labels'') (JArr []))"
    "getProp project' ''attachments'' = Some (orElse (getProp project ''attachments'') (JArr []))"
    "getProp project' ''tasks'' = Some tasks"
    "getProp project' ''phases'' = Some phases"
    unfolding p' by (rule getProp_withProps [OF dist], simp add: kvs_def)+
  have again: "mapOrEmpty (Some tasks) normalizeTask = Inr tasks"
    "mapOrEmpty (Some phases) normalizePhase = Inr phases"
    using mapOrEmpty_fixed [OF normalizeTask_fixed tasks]
      mapOrEmpty_fixed [OF normalizePhase_fixed phases] by simp_all
  have "normalizeProject project' = Inr (JObj (withProps (spread project') kvs))"
    unfolding normalizeProject_def g orElse_idem again kvs_def by (simp add: p')
  also have "spread project' = withProps (spread project) kvs" by (simp add: p')
  finally show ?thesis using withProps_twice [OF dist] p' by simp
qed

lemma normalizeArea_fixed:
  assumes "normalizeArea area = Inr area'"
  shows "normalizeArea area' = Inr area'"
proof -
  from assms obtain tasks projects
    where tasks: "mapOrEmpty (getProp area ''tasks'') normalizeTask = Inr tasks"
      and projects: "mapOrEmpty (getProp area ''projects'') normalizeProject = Inr projects"
      and ne: "area \<noteq> JNull"
    by (auto simp: normalizeArea_def split: if_splits sum.splits)
  define kvs where "kvs =
              [(''labels'', orElse (getProp area ''labels'') (JArr [])),
               (''description'', orElse (getProp area ''description'') (JStr [])),
               (''tasks'', tasks),
               (''projects'', projects)]"
  have dist: "distinct (map fst kvs)" by (simp add: kvs_def)
  from assms have a': "area' = JObj (withProps (spread area) kvs)"
    by (simp add: normalizeArea_def kvs_def tasks projects ne)
  have g: "getProp area' ''labels'' = Some (orElse (getProp area ''labels'') (JArr []))"
    "getProp area' ''description'' = Some (orElse (getProp area ''description'') (JStr []))"
    "getProp area' ''tasks'' = Some tasks"
    "getProp area' ''projects'' = Some projects"
    unfolding a' by (rule getProp_withProps [OF dist], simp add: kvs_def)+
  have again: "mapOrEmpty (Some tasks) normalizeTask = Inr tasks"
    "mapOrEmpty (Some projects) normalizeProject = Inr projects"
    using mapOrEmpty_fixed [OF normalizeTask_fixed tasks]
      mapOrEmpty_fixed [OF normalizeProject_fixed projects] by simp_all
  have "normalizeArea area' = Inr (JObj (withProps (spread area') kvs))"
    unfolding normalizeArea_def g orElse_idem again kvs_def by (simp add: a')
  also have "spread area' = withProps (spread area) kvs" by (simp add: a')
  finally show ?thesis using withProps_twice [OF dist] a' by simp
qed

lemma normalizeData_fixed:
  assumes "normalizeData parsed = Inr parsed'"
  shows "normalizeData parsed' = Inr parsed'"
proof -
  from assms obtain inbox' areas'
    where inb: "mapOrEmpty (getProp parsed ''inbox'') normalizeTask = Inr inbox'"
      and ars: "mapOrEmpty (getProp parsed ''areas'') normalizeArea = Inr areas'"
      and ne: "parsed \<noteq> JNull"
    by (auto simp: normalizeData_def split: if_splits sum.splits)
  define kvs where "kvs =
              [(''areaGroups'', orElse (getProp parsed ''areaGroups'') (JArr [])),
               (''inbox'', inbox'),
               (''areas'', areas')]"
  have dist: "distinct (map fst kvs)" by (simp add: kvs_def)
  from assms have d': "parsed' = JObj (withProps (spread parsed) kvs)"
    by (simp add: normalizeData_def kvs_def inb ars ne)
  have g: "getProp parsed' ''areaGroups'' = Some (orElse (getProp parsed ''areaGroups'') (JArr []))"
    "getProp parsed' ''inbox'' = Some inbox'"
    "getProp parsed' ''areas'' = Some areas'"
    unfolding d' by (rule getProp_withProps [OF dist], simp add: kvs_def)+
  have again: "mapOrEmpty (Some inbox') normalizeTask = Inr inbox'"
    "mapOrEmpty (Some areas') normalizeArea = Inr areas'"
    using mapOrEmpty_fixed [OF normalizeTask_fixed inb]
      mapOrEmpty_fixed [OF normalizeArea_fixed ars] by simp_all
  have "normalizeData parsed' = Inr (JObj (withProps (spread parsed') kvs))"
    unfolding normalizeData_def g orElse_idem again kvs_def by (simp add: d')
  also have "spread parsed' = withProps (spread parsed) kvs" by (simp add: d')
  finally show ?thesis using withProps_twice [OF dist] d' by simp
qed

text \<open>
  C5. For every input value \<open>D\<close>, normalizing the result of \<open>normalizeData D\<close> gives the
  result of \<open>normalizeData D\<close>: a document that was normalized is returned as it is, and
  an input on which the normalizer throws makes both sides throw the same TypeError.
\<close>

theorem normalizeData_idempotent: "normalizeTwice D = normalizeData D"
  by (cases "normalizeData D") (simp_all add: normalizeTwice_def normalizeData_fixed)

text \<open>The empty object, a partial document and a malformed one.\<close>

lemma normalizeData_examples:
  "normalizeData (JObj []) =
     Inr (JObj [(''areaGroups'', JArr []), (''inbox'', JArr []), (''areas'', JArr [])])"
  "normalizeData (JObj [(''inbox'', JArr [JObj [(''id'', JStr ''t1'')]])]) =
     Inr (JObj [(''inbox'', JArr [JObj [(''id'', JStr ''t1''), (''description'', JStr []),
                  (''labels'', JArr []), (''attachments'', JArr []), (''contextTags'', JArr [])]]),
                (''areaGroups'', JArr []), (''areas'', JArr [])])"
  "normalizeData (JObj [(''inbox'', JStr ''abc'')]) = Inl TypeError"
  "normalizeData JNull = Inl TypeError"
  by (simp_all add: normalizeData_def normalizeTask_def mapOrEmpty_def withProps_def)

section \<open>The state on cold start\<close>

text \<open>
  C10. When the local cache holds no document, the initial state is the normalized
  \<open>INITIAL_DATA\<close>: no groups, an empty inbox and exactly two areas, \<open>1\<close> "Work" with icon
  briefcase and \<open>2\<close> "Health" with icon heart, each with empty tasks, projects, resources
  and labels (and the empty description the normalizer adds). It is not the normalized
  empty document.
\<close>

theorem cold_start_seed:
  "initialState None = Inr (JObj
     [(''areaGroups'', JArr []),
      (''areas'', JArr
        [JObj [(''id'', JStr ''1''), (''title'', JStr ''Work''), (''icon'', JStr ''briefcase''),
               (''tasks'', JArr []), (''projects'', JArr []), (''resources'', JArr []),
               (''labels'', JArr []), (''description'', JStr [])],
         JObj [(''id'', JStr ''2''), (''title'', JStr ''Health''), (''icon'', JStr ''heart''),
               (''tasks'', JArr []), (''projects'', JArr []), (''resources'', JArr []),
               (''labels'', JArr []), (''description'', JStr [])]]),
      (''inbox'', JArr [])])
   \<and> initialState None \<noteq> normalizeData (JObj [])"
  by (simp add: initialState_def INITIAL_DATA_def normalizeData_def normalizeArea_def
      mapOrEmpty_def withProps_def)

section \<open>The load on sign-in\<close>

text \<open>The sample state is the state of the hook: its document is the initial one.\<close>

lemma seedDocument_initial: "initialState None = Inr seedDocument"
  by (simp add: initialState_def seedDocument_def INITIAL_DATA_def normalizeData_def
      normalizeArea_def mapOrEmpty_def withProps_def)

lemma signedIn_mounted:
  "signedIn =
     (saveEffect \<lparr>data = seedDocument, syncing = False, lastSyncError = None, saveTimeout = None,
                   loadedFromCloud = False, user = Some ''u1'', localStorage = None,
                   setItemCalls = [], upserts = [], now = 0\<rparr>)\<lparr>syncing := True, now := 120\<rparr>"
  by (simp add: signedIn_def saveEffect_def setItem_def)

lemma loadFromCloud_adopts:
  assumes "truthy doc" and "\<forall>e. error = Some e \<longrightarrow> code e = ''PGRST116''"
    and "normalizeData doc = Inr cloudData"
  shows "loadFromCloud msg uid (ReadReturned (Some doc) error) seedResponse s =
         s\<lparr>data := cloudData, localStorage := Some cloudData,
           setItemCalls := setItemCalls s @ [cloudData], loadedFromCloud := True,
           lastSyncError := None, syncing := False\<rparr>"
  using assms by (cases error) (simp_all add: loadFromCloud_def Let_def setItem_def)

lemma loadFromCloud_malformed:
  assumes "truthy doc" and "\<forall>e. error = Some e \<longrightarrow> code e = ''PGRST116''"
    and "normalizeData doc = Inl thrown"
  shows "loadFromCloud msg uid (ReadReturned (Some doc) error) seedResponse s =
         s\<lparr>lastSyncError := Some (msg thrown), syncing := False\<rparr>"
  using assms by (cases error) (simp_all add: loadFromCloud_def Let_def)

lemma loadFromCloud_seeds:
  assumes "\<forall>e. error = Some e \<longrightarrow> code e = ''PGRST116''"
    and "localStorage s = Some localData" and "truthy localData"
  shows "loadFromCloud msg uid (ReadReturned None error) seedResponse s =
         (case seedResponse of
            UpsertThrew m \<Rightarrow>
              s\<lparr>upserts := upserts s @ [\<lparr>user_id = uid, row_data = localData, updated_at = now s\<rparr>],
                lastSyncError := Some m, syncing := False\<rparr>
          | UpsertReturned e \<Rightarrow>
              s\<lparr>upserts := upserts s @ [\<lparr>user_id = uid, row_data = localData, updated_at = now s\<rparr>],
                loadedFromCloud := True, lastSyncError := None, syncing := False\<rparr>)"
  using assms
  by (cases error; cases seedResponse) (simp_all add: loadFromCloud_def Let_def upsert_def)

lemma loadFromCloud_nothing:
  assumes "\<forall>e. error = Some e \<longrightarrow> code e = ''PGRST116''" and "localStorage s = None"
  shows "loadFromCloud msg uid (ReadReturned None error) seedResponse s =
         s\<lparr>loadedFromCloud := True, lastSyncError := None, syncing := False\<rparr>"
  using assms by (cases error) (simp_all add: loadFromCloud_def Let_def)

lemma loadFromCloud_read_error:
  assumes "code e \<noteq> ''PGRST116''"
  shows "loadFromCloud msg uid (ReadReturned rowData (Some e)) seedResponse s =
         s\<lparr>lastSyncError := Some (message e), syncing := False\<rparr>"
  using assms by (simp add: loadFromCloud_def Let_def)

lemma loadFromCloud_read_threw:
  "loadFromCloud msg uid (ReadThrew m) seedResponse s =
   s\<lparr>lastSyncError := Some m, syncing := False\<rparr>"
  by (simp add: loadFromCloud_def Let_def)

text \<open>
  C3. In \<open>loadFromCloud\<close>, with a read that returns no error or the no-rows code PGRST116:
  a document that the read returns replaces the state, normalized, and is written to the
  local cache, the error is cleared and nothing is pushed; when the read returns no
  document and the cache holds one, that one is pushed to the store in one upsert for
  this user and the state and the cache stay; when the cache holds none either, nothing
  is pushed. When the read fails for another reason, by an error of any other code that
  it returns or by an exception that it throws, the message is recorded and state, cache
  and store calls stay; so they do, with the message of the exception recorded, when the
  normalizer throws on the document that the read returned.
\<close>

theorem load_precedence:
  "(truthy doc \<and> (\<forall>e. error = Some e \<longrightarrow> code e = ''PGRST116'')
      \<and> normalizeData doc = Inr cloudData \<longrightarrow>
      data (loadFromCloud msg uid (ReadReturned (Some doc) error) seedResponse s) = cloudData
      \<and> localStorage (loadFromCloud msg uid (ReadReturned (Some doc) error) seedResponse s) =
          Some cloudData
      \<and> setItemCalls (loadFromCloud msg uid (ReadReturned (Some doc) error) seedResponse s) =
          setItemCalls s @ [cloudData]
      \<and> lastSyncError (loadFromCloud msg uid (ReadReturned (Some doc) error) seedResponse s) =
          None
      \<and> upserts (loadFromCloud msg uid (ReadReturned (Some doc) error) seedResponse s) =
          upserts s)
   \<and> ((\<forall>e. error = Some e \<longrightarrow> code e = ''PGRST116'')
      \<and> localStorage s = Some localData \<and> truthy localData \<longrightarrow>
      upserts (loadFromCloud msg uid (ReadReturned None error) seedResponse s) =
          upserts s @ [\<lparr>user_id = uid, row_data = localData, updated_at = now s\<rparr>]
      \<and> data (loadFromCloud msg uid (ReadReturned None error) seedResponse s) = data s
      \<and> localStorage (loadFromCloud msg uid (ReadReturned None error) seedResponse s) =
          localStorage s
      \<and> setItemCalls (loadFromCloud msg uid (ReadReturned None error) seedResponse s) =
          setItemCalls s)
   \<and> ((\<forall>e. error = Some e \<longrightarrow> code e = ''PGRST116'') \<and> localStorage s = None \<longrightarrow>
      upserts (loadFromCloud msg uid (ReadReturned None error) seedResponse s) = upserts s
      \<and> data (loadFromCloud msg uid (ReadReturned None error) seedResponse s) = data s
      \<and> localStorage (loadFromCloud msg uid (ReadReturned None error) seedResponse s) = None
      \<and> setItemCalls (loadFromCloud msg uid (ReadReturned None error) seedResponse s) =
          setItemCalls s)
   \<and> (code failure \<noteq> ''PGRST116'' \<longrightarrow>
      lastSyncError (loadFromCloud msg uid (ReadReturned rowData (Some failure)) seedResponse s) =
          Some (message failure)
      \<and> data (loadFromCloud msg uid (ReadReturned rowData (Some failure)) seedResponse s) = data s
      \<and> localStorage (loadFromCloud msg uid (ReadReturned rowData (Some failure)) seedResponse s) =
          localStorage s
      \<and> setItemCalls (loadFromCloud msg uid (ReadReturned rowData (Some failure)) seedResponse s) =
          setItemCalls s
      \<and> upserts (loadFromCloud msg uid (ReadReturned rowData (Some failure)) seedResponse s) =
          upserts s)
   \<and> lastSyncError (loadFromCloud msg uid (ReadThrew m) seedResponse s) = Some m
   \<and> data (loadFromCloud msg uid (ReadThrew m) seedResponse s) = data s
   \<and> localStorage (loadFromCloud msg uid (ReadThrew m) seedResponse s) = localStorage s
   \<and> setItemCalls (loadFromCloud msg uid (ReadThrew m) seedResponse s) = setItemCalls s
   \<and> upserts (loadFromCloud msg uid (ReadThrew m) seedResponse s) = upserts s
   \<and> (truthy doc \<and> (\<forall>e. error = Some e \<longrightarrow> code e = ''PGRST116'')
      \<and> normalizeData doc = Inl thrown \<longrightarrow>
      lastSyncError (loadFromCloud msg uid (ReadReturned (Some doc) error) seedResponse s) =
          Some (msg thrown)
      \<and> data (loadFromCloud msg uid (ReadReturned (Some doc) error) seedResponse s) = data s
      \<and> localStorage (loadFromCloud msg uid (ReadReturned (Some doc) error) seedResponse s) =
          localStorage s
      \<and> setItemCalls (loadFromCloud msg uid (ReadReturned (Some doc) error) seedResponse s) =
          setItemCalls s
      \<and> upserts (loadFromCloud msg uid (ReadReturned (Some doc) error) seedResponse s) =
          upserts s)"
proof (intro conjI impI)
qed (simp_all add: loadFromCloud_adopts loadFromCloud_malformed loadFromCloud_seeds
      loadFromCloud_nothing loadFromCloud_read_error loadFromCloud_read_threw
      split: upsert_response.split)

text \<open>
  On the mounted hook: a remote document with one task is adopted, normalized; with no
  row the cached document is pushed once; with no row and a cache that was cleared
  nothing is pushed; a returned error 500, a thrown read and a remote document whose
  inbox is no array are recorded, and document and cache stay.
\<close>

theorem load_precedence_witness:
  "data (loadFromCloud (\<lambda>e. ''x.map is not a function'') ''u1''
           (ReadReturned (Some (JObj [(''inbox'', JArr [JObj [(''id'', JStr ''t1'')]])])) None)
           (UpsertReturned None) signedIn) =
     JObj [(''inbox'', JArr [JObj [(''id'', JStr ''t1''), (''description'', JStr []),
             (''labels'', JArr []), (''attachments'', JArr []), (''contextTags'', JArr [])]]),
           (''areaGroups'', JArr []), (''areas'', JArr [])]
   \<and> upserts (loadFromCloud (\<lambda>e. ''x.map is not a function'') ''u1''
           (ReadReturned None (Some (StoreError ''PGRST116'' ''no rows'')))
           (UpsertReturned None) signedIn) =
     [\<lparr>user_id = ''u1'', row_data = seedDocument, updated_at = 120\<rparr>]
   \<and> upserts (loadFromCloud (\<lambda>e. ''x.map is not a function'') ''u1''
           (ReadReturned None (Some (StoreError ''PGRST116'' ''no rows'')))
           (UpsertReturned None) (signedIn\<lparr>localStorage := None\<rparr>)) = []
   \<and> lastSyncError (loadFromCloud (\<lambda>e. ''x.map is not a function'') ''u1''
           (ReadReturned None (Some (StoreError ''500'' ''boom'')))
           (UpsertReturned None) signedIn) = Some ''boom''
   \<and> lastSyncError (loadFromCloud (\<lambda>e. ''x.map is not a function'') ''u1''
           (ReadThrew ''Failed to fetch'') (UpsertReturned None) signedIn) = Some ''Failed to fetch''
   \<and> data (loadFromCloud (\<lambda>e. ''x.map is not a function'') ''u1''
           (ReadThrew ''Failed to fetch'') (UpsertReturned None) signedIn) = seedDocument
   \<and> lastSyncError (loadFromCloud (\<lambda>e. ''x.map is not a function'') ''u1''
           (ReadReturned (Some (JObj [(''inbox'', JStr ''abc'')])) None)
           (UpsertReturned None) signedIn) = Some ''x.map is not a function''
   \<and> localStorage (loadFromCloud (\<lambda>e. ''x.map is not a function'') ''u1''
           (ReadReturned (Some (JObj [(''inbox'', JStr ''abc'')])) None)
           (UpsertReturned None) signedIn) = Some seedDocument"
  using load_precedence [where doc = "JObj [(''inbox'', JArr [JObj [(''id'', JStr ''t1'')]])]"
      and error = None
      and cloudData = "JObj [(''inbox'', JArr [JObj [(''id'', JStr ''t1''),
             (''description'', JStr []), (''labels'', JArr []), (''attachments'', JArr []),
             (''contextTags'', JArr [])]]), (''areaGroups'', JArr []), (''areas'', JArr [])]"
      and msg = "\<lambda>e. ''x.map is not a function''" and uid = "''u1''"
      and seedResponse = "UpsertReturned None" and s = signedIn and localData = seedDocument
      and failure = "StoreError ''500'' ''boom''" and rowData = None
      and m = "''Failed to fetch''"]
    load_precedence [where error = "Some (StoreError ''PGRST116'' ''no rows'')"
      and msg = "\<lambda>e. ''x.map is not a function''" and uid = "''u1''"
      and seedResponse = "UpsertReturned None" and s = signedIn and localData = seedDocument]
    load_precedence [where error = "Some (StoreError ''PGRST116'' ''no rows'')"
      and msg = "\<lambda>e. ''x.map is not a function''" and uid = "''u1''"
      and seedResponse = "UpsertReturned None" and s = "signedIn\<lparr>localStorage := None\<rparr>"]
    load_precedence [where doc = "JObj [(''inbox'', JStr ''abc'')]" and error = None
      and thrown = TypeError and msg = "\<lambda>e. ''x.map is not a function''" and uid = "''u1''"
      and seedResponse = "UpsertReturned None" and s = signedIn]
  by (simp add: signedIn_def seedDocument_def normalizeData_def normalizeTask_def mapOrEmpty_def
      withProps_def)

section \<open>The debounced save\<close>

lemma burst_armed:
  assumes "\<forall>(gap, response, w) \<in> set rest. gap < 1000"
    and "user s = Some uid" and "saveTimeout s = Some (now s + 1000, uid, data s)"
  shows "run (concat (map (\<lambda>(gap, response, w). [Elapse gap response, SetData w]) rest)) s =
         s\<lparr>data := last (data s # map (\<lambda>(gap, response, w). w) rest),
           localStorage := (if rest = [] then localStorage s else Some (last (map (\<lambda>(gap, response, w). w) rest))),
           setItemCalls := setItemCalls s @ map (\<lambda>(gap, response, w). w) rest,
           now := now s + sum_list (gaps rest),
           saveTimeout := Some (now s + sum_list (gaps rest) + 1000, uid,
                                last (data s # map (\<lambda>(gap, response, w). w) rest))\<rparr>"
  using assms
proof (induction rest arbitrary: s)
  case Nil
  then show ?case by (simp add: gaps_def)
next
  case (Cons x rest)
  obtain gap response w where x: "x = (gap, response, w)" by (cases x)
  from Cons.prems(1) have gap: "gap < 1000" by (simp add: x)
  let ?s1 = "setData w (elapse gap response s)"
  have s1: "?s1 = s\<lparr>data := w, localStorage := Some w, setItemCalls := setItemCalls s @ [w],
                     now := now s + gap, saveTimeout := Some (now s + gap + 1000, uid, w)\<rparr>"
    using gap Cons.prems(2,3)
    by (simp add: setData_def saveEffect_def elapse_def setItem_def)
  have "run (concat (map (\<lambda>(gap, response, w). [Elapse gap response, SetData w]) (x # rest))) s =
        run (concat (map (\<lambda>(gap, response, w). [Elapse gap response, SetData w]) rest)) ?s1"
    by (simp add: x)
  also have "\<dots> = ?s1\<lparr>data := last (data ?s1 # map (\<lambda>(gap, response, w). w) rest),
           localStorage := (if rest = [] then localStorage ?s1 else Some (last (map (\<lambda>(gap, response, w). w) rest))),
           setItemCalls := setItemCalls ?s1 @ map (\<lambda>(gap, response, w). w) rest,
           now := now ?s1 + sum_list (gaps rest),
           saveTimeout := Some (now ?s1 + sum_list (gaps rest) + 1000, uid,
                                last (data ?s1 # map (\<lambda>(gap, response, w). w) rest))\<rparr>"
    using Cons.prems(1,2) by (intro Cons.IH) (simp_all add: s1)
  also have "\<dots> = s\<lparr>data := last (data s # map (\<lambda>(gap, response, w). w) (x # rest)),
           localStorage := (if x # rest = [] then localStorage s else Some (last (map (\<lambda>(gap, response, w). w) (x # rest)))),
           setItemCalls := setItemCalls s @ map (\<lambda>(gap, response, w). w) (x # rest),
           now := now s + sum_list (gaps (x # rest)),
           saveTimeout := Some (now s + sum_list (gaps (x # rest)) + 1000, uid,
                                last (data s # map (\<lambda>(gap, response, w). w) (x # rest)))\<rparr>"
    by (simp add: s1 x gaps_def add.assoc)
  finally show ?case .
qed


lemma burst_no_identity:
  assumes "user s = None" and "saveTimeout s = None"
  shows "run (concat (map (\<lambda>(gap, response, w). [Elapse gap response, SetData w]) rest)) s =
         s\<lparr>data := last (data s # map (\<lambda>(gap, response, w). w) rest),
           localStorage := (if rest = [] then localStorage s else Some (last (map (\<lambda>(gap, response, w). w) rest))),
           setItemCalls := setItemCalls s @ map (\<lambda>(gap, response, w). w) rest,
           now := now s + sum_list (gaps rest)\<rparr>"
  using assms
proof (induction rest arbitrary: s)
  case Nil
  then show ?case by (simp add: gaps_def)
next
  case (Cons x rest)
  obtain gap response w where x: "x = (gap, response, w)" by (cases x)
  let ?s1 = "setData w (elapse gap response s)"
  have s1: "?s1 = s\<lparr>data := w, localStorage := Some w, setItemCalls := setItemCalls s @ [w],
                     now := now s + gap\<rparr>"
    using Cons.prems
    by (simp add: setData_def saveEffect_def elapse_def setItem_def)
  have "run (concat (map (\<lambda>(gap, response, w). [Elapse gap response, SetData w]) (x # rest))) s =
        run (concat (map (\<lambda>(gap, response, w). [Elapse gap response, SetData w]) rest)) ?s1"
    by (simp add: x)
  also have "\<dots> = ?s1\<lparr>data := last (data ?s1 # map (\<lambda>(gap, response, w). w) rest),
           localStorage := (if rest = [] then localStorage ?s1 else Some (last (map (\<lambda>(gap, response, w). w) rest))),
           setItemCalls := setItemCalls ?s1 @ map (\<lambda>(gap, response, w). w) rest,
           now := now ?s1 + sum_list (gaps rest)\<rparr>"
    using Cons.prems by (intro Cons.IH) (simp_all add: s1)
  also have "\<dots> = s\<lparr>data := last (data s # map (\<lambda>(gap, response, w). w) (x # rest)),
           localStorage := (if x # rest = [] then localStorage s else Some (last (map (\<lambda>(gap, response, w). w) (x # rest)))),
           setItemCalls := setItemCalls s @ map (\<lambda>(gap, response, w). w) (x # rest),
           now := now s + sum_list (gaps (x # rest))\<rparr>"
    by (simp add: s1 x gaps_def add.assoc)
  finally show ?case .
qed

lemma run_append: "run (es @ fs) s = run fs (run es s)"
  by (induction es arbitrary: s) simp_all

lemma saveCallback_fields:
  "data (saveCallback response uid v s) = data s"
  "localStorage (saveCallback response uid v s) = localStorage s"
  "setItemCalls (saveCallback response uid v s) = setItemCalls s"
  "upserts (saveCallback response uid v s) =
     upserts s @ [\<lparr>user_id = uid, row_data = v, updated_at = now s\<rparr>]"
  "saveTimeout (saveCallback response uid v s) = saveTimeout s"
  "syncing (saveCallback response uid v s) = False"
  "lastSyncError (saveCallback response uid v s) =
     (case response of
        UpsertThrew m \<Rightarrow> Some m
      | UpsertReturned (Some e) \<Rightarrow> Some (message e)
      | UpsertReturned None \<Rightarrow> None)"
  by (simp_all add: saveCallback_def Let_def upsert_def
      split: upsert_response.split option.split)

lemma burst_with_identity:
  assumes "\<forall>(gap, response, w) \<in> set rest. gap < 1000" and "1000 \<le> final"
    and "user s = Some uid"
  shows "upserts (run (burst v rest @ [Elapse final response]) s) =
           upserts s @ [\<lparr>user_id = uid, row_data = last (edits v rest),
                         updated_at = now s + sum_list (gaps rest) + 1000\<rparr>]
         \<and> setItemCalls (run (burst v rest @ [Elapse final response]) s) =
           setItemCalls s @ edits v rest
         \<and> data (run (burst v rest @ [Elapse final response]) s) = last (edits v rest)"
proof -
  let ?s0 = "setData v s"
  let ?tail = "concat (map (\<lambda>(gap, response, w). [Elapse gap response, SetData w]) rest)"
  have s0: "user ?s0 = Some uid" "saveTimeout ?s0 = Some (now ?s0 + 1000, uid, data ?s0)"
    "data ?s0 = v" "setItemCalls ?s0 = setItemCalls s @ [v]" "upserts ?s0 = upserts s"
    "now ?s0 = now s"
    using assms(3) by (simp_all add: setData_def saveEffect_def setItem_def)
  have "run (burst v rest @ [Elapse final response]) s =
        elapse final response (run ?tail ?s0)"
    by (simp add: burst_def run_append)
  then show ?thesis
    using assms(2)
    by (simp add: burst_armed [OF assms(1) s0(1,2)] s0 elapse_def saveCallback_fields edits_def)
qed

lemma burst_without_identity:
  assumes "user s = None"
  shows "upserts (run (burst v rest @ [Elapse final response]) s) = upserts s
         \<and> setItemCalls (run (burst v rest @ [Elapse final response]) s) =
           setItemCalls s @ edits v rest"
proof -
  let ?s0 = "setData v s"
  let ?tail = "concat (map (\<lambda>(gap, response, w). [Elapse gap response, SetData w]) rest)"
  have s0: "user ?s0 = None" "saveTimeout ?s0 = None"
    "data ?s0 = v" "setItemCalls ?s0 = setItemCalls s @ [v]" "upserts ?s0 = upserts s"
    using assms by (simp_all add: setData_def saveEffect_def setItem_def)
  have "run (burst v rest @ [Elapse final response]) s =
        elapse final response (run ?tail ?s0)"
    by (simp add: burst_def run_append)
  then show ?thesis
    by (simp add: burst_no_identity [OF s0(1,2)] s0 elapse_def edits_def)
qed

text \<open>
  C4. A burst of N edits, N at least 1, each less than 1000 ms after the one before, and
  then 1000 ms or more without an edit: the local cache is written once per edit, with
  the edits in their order, whoever is or is not signed in and whatever the store answers;
  and with an identity the store is called exactly once, with the document of the last
  edit, when the timer of the last edit falls due.
\<close>

theorem debounce_collapses:
  assumes "\<forall>(gap, response, w) \<in> set rest. gap < 1000" and "1000 \<le> final"
  shows "setItemCalls (run (burst v rest @ [Elapse final response]) s) =
           setItemCalls s @ edits v rest
         \<and> (\<forall>uid. user s = Some uid \<longrightarrow>
              upserts (run (burst v rest @ [Elapse final response]) s) =
              upserts s @ [\<lparr>user_id = uid, row_data = last (edits v rest),
                            updated_at = now s + sum_list (gaps rest) + 1000\<rparr>])"
proof (cases "user s")
  case None
  then show ?thesis using burst_without_identity [of s v rest final response] by simp
next
  case (Some uid)
  then show ?thesis using burst_with_identity [OF assms, of s uid v response] by simp
qed

theorem debounce_collapses_witness:
  "upserts (run (burst (1::nat) [(200, UpsertReturned None, 2), (999, UpsertThrew ''offline'', 3)]
                 @ [Elapse 1000 (UpsertReturned None)]) idle) =
     [\<lparr>user_id = ''u1'', row_data = 3, updated_at = 2199\<rparr>]
   \<and> setItemCalls (run (burst (1::nat) [(200, UpsertReturned None, 2), (999, UpsertThrew ''offline'', 3)]
                 @ [Elapse 1000 (UpsertReturned None)]) idle) = [1, 2, 3]"
  using debounce_collapses [of "[(200, UpsertReturned None, 2), (999, UpsertThrew ''offline'', 3)]"
      1000 1 "UpsertReturned None" idle]
  by (simp add: idle_def edits_def gaps_def)

text \<open>
  C8. When the pending timer fires, whatever the store answers to the upsert, the
  document in memory and the local cache are what they were, the hook is no longer
  syncing and no timer is pending (no retry); \<open>lastSyncError\<close> is the message of the error
  the store returned or of the exception it threw, and is cleared when the upsert
  succeeded.
\<close>

theorem save_outcome_recorded:
  assumes "saveTimeout s = Some (due, uid, v)" and "due \<le> now s + ms"
  shows "data (elapse ms response s) = data s
       \<and> localStorage (elapse ms response s) = localStorage s
       \<and> setItemCalls (elapse ms response s) = setItemCalls s
       \<and> lastSyncError (elapse ms response s) =
           (case response of
              UpsertThrew m \<Rightarrow> Some m
            | UpsertReturned (Some e) \<Rightarrow> Some (message e)
            | UpsertReturned None \<Rightarrow> None)
       \<and> upserts (elapse ms response s) =
           upserts s @ [\<lparr>user_id = uid, row_data = v, updated_at = due\<rparr>]
       \<and> saveTimeout (elapse ms response s) = None
       \<and> syncing (elapse ms response s) = False"
  using assms by (simp add: elapse_def saveCallback_fields)

theorem save_outcome_recorded_witness:
  "lastSyncError (elapse 1000 (UpsertThrew ''offline'') (setData 5 idle)) = Some ''offline''
   \<and> lastSyncError (elapse 1000 (UpsertReturned (Some (StoreError ''42501'' ''denied'')))
        (setData 5 idle)) = Some ''denied''
   \<and> lastSyncError (elapse 1000 (UpsertReturned None)
        (setData 5 (idle\<lparr>lastSyncError := Some ''offline''\<rparr>))) = None
   \<and> data (elapse 1000 (UpsertThrew ''offline'') (setData 5 idle)) = 5
   \<and> localStorage (elapse 1000 (UpsertThrew ''offline'') (setData 5 idle)) = Some 5"
  using save_outcome_recorded [of "setData 5 idle" 1000 "''u1''" 5 1000 "UpsertThrew ''offline''"]
    save_outcome_recorded [of "setData 5 idle" 1000 "''u1''" 5 1000
      "UpsertReturned (Some (StoreError ''42501'' ''denied''))"]
    save_outcome_recorded [of "setData 5 (idle\<lparr>lastSyncError := Some ''offline''\<rparr>)" 1000 "''u1''" 5
      1000 "UpsertReturned None"]
  by (simp add: idle_def setData_def saveEffect_def setItem_def)

end
